theory Spec2Isabelle
  imports Main "HOL-Library.Word" "HOL-Library.Multiset"
begin

section \<open>The generate command: from inspect records to a Compose project\<close>

text \<open>
  A shallow embedding of \<^verbatim>\<open>cmd/compose/generate.go\<close>. Go strings are \<open>string\<close>,
  slices that the code only iterates are lists, slices whose nil state the code can pass on
  (\<^verbatim>\<open>Entrypoint\<close>, \<^verbatim>\<open>Cmd\<close>, \<^verbatim>\<open>Command\<close>) are \<open>string list option\<close>
  with \<open>None\<close> for nil, and pointers to option blocks are options.

  A Go map that the code ranges over is an association list: its order is the order in
  which this run's \<^verbatim>\<open>range\<close> visits the entries, which the language leaves
  unspecified. A well-formed table has distinct keys.

  The inspect record is taken as the engine returns it on success, with its
  \<^verbatim>\<open>Config\<close> and \<^verbatim>\<open>HostConfig\<close> blocks present. Of the structs of the engine
  and of the Compose model, the records keep the fields that the command reads or writes;
  the other fields of an output struct stay at their zero values.
\<close>

subsection \<open>The inspect record\<close>

record PortBinding =
  HostIP :: string
  HostPort :: string

record BindOptions =
  Propagation :: string
  CreateMountpoint :: bool

record VolumeOptions =
  NoCopy :: bool
  Subpath :: string

record TmpfsOptions =
  SizeBytes :: "64 word"
  Mode :: "32 word"

record Mount =
  Mount_Type :: string
  Mount_Source :: string
  Mount_Target :: string
  Mount_ReadOnly :: bool
  Mount_Consistency :: string
  Mount_BindOptions :: "BindOptions option"
  Mount_VolumeOptions :: "VolumeOptions option"
  Mount_TmpfsOptions :: "TmpfsOptions option"

record Config =
  Image :: string
  Env :: "string list"
  Entrypoint :: "string list option"
  Cmd :: "string list option"
  ExposedPorts :: "string list"

record HostConfig =
  PortBindings :: "(string \<times> PortBinding list) list"
  Binds :: "string list"
  Mounts :: "Mount list"

record ContainerJSON =
  Name :: string
  Config :: Config
  HostConfig :: HostConfig

subsection \<open>The Compose model\<close>

record ServicePortConfig =
  Port_HostIP :: string
  Port_Published :: string
  Port_Target :: "32 word"

record ServiceVolumeBind =
  Bind_Propagation :: string
  Bind_CreateHostPath :: bool

record ServiceVolumeVolume =
  Volume_NoCopy :: bool
  Volume_Subpath :: string

record ServiceVolumeTmpfs =
  Tmpfs_Size :: "64 word"
  Tmpfs_Mode :: "32 word"

record ServiceVolumeConfig =
  Volume_Type :: string
  Volume_Source :: string
  Volume_Target :: string
  Volume_ReadOnly :: bool
  Volume_Consistency :: string
  Volume_Bind :: "ServiceVolumeBind option"
  Volume_Volume :: "ServiceVolumeVolume option"
  Volume_Tmpfs :: "ServiceVolumeTmpfs option"

type_synonym MappingWithEquals = "(string \<times> string option) list"

record ServiceConfig =
  Service_Name :: string
  Service_Image :: string
  Service_Environment :: MappingWithEquals
  Service_Expose :: "string list"
  Service_Entrypoint :: "string list option"
  Service_Ports :: "ServicePortConfig list"
  Service_Volumes :: "ServiceVolumeConfig list"
  Service_Command :: "string list option"

record Project =
  Project_Name :: string
  Project_WorkingDir :: string
  Project_Services :: "string \<rightharpoonup> ServiceConfig"

subsection \<open>Errors, output and the collaborators\<close>

text \<open>A Go \<^verbatim>\<open>error\<close>, by the text its \<^verbatim>\<open>Error()\<close> gives.\<close>

datatype error = Error string

text \<open>
  What the command writes, one constructor per print statement of the source:
  the banner on standard error (line 58), \<^verbatim>\<open>"failed to inspect container: %v"\<close>
  (line 70), the diagnostic of a failed serialization (line 112), the document \<^verbatim>\<open>"\n%s"\<close> (line 114),
  \<^verbatim>\<open>"warning: unable to get working directory %v"\<close> (line 134) and
  \<^verbatim>\<open>"unable to process bind mount: %s"\<close> (line 213).
\<close>

datatype event =
    ExperimentalBanner
  | FailedToInspect error
  | OopsBad error
  | Document string
  | WorkingDirWarning error
  | UnableToProcessBind string

text \<open>
  The code outside this file that the command calls, taken as parameters: the engine
  client's \<^verbatim>\<open>ContainerInspect\<close>, \<^verbatim>\<open>os.Getwd\<close>, the project's
  \<^verbatim>\<open>MarshalYAML\<close> (Go returns the bytes and the error side by side), and the two
  methods of \<^verbatim>\<open>nat.Port\<close> the port mapper uses: \<^verbatim>\<open>Port()\<close>, the bare port of a
  \<^verbatim>\<open>port/proto\<close> key, and \<^verbatim>\<open>Int()\<close>, its number.
\<close>

record Collaborators =
  ContainerInspect :: "string \<Rightarrow> error + ContainerJSON"
  Getwd :: "error + string"
  MarshalYAML :: "Project \<Rightarrow> string \<times> error option"
  nat_Port :: "string \<Rightarrow> string"
  nat_Int :: "string \<Rightarrow> int"

record generateOptions =
  ProjectName :: string
  WorkDir :: string

subsection \<open>Go library functions the mappers rely on\<close>

text \<open>\<^verbatim>\<open>strings.Split(s, ":")\<close> for a one-byte separator: never empty, \<open>[s]\<close> when
  the separator does not occur.\<close>

fun strings_Split :: "string \<Rightarrow> char \<Rightarrow> string list" where
  "strings_Split [] sep = [[]]"
| "strings_Split (c # cs) sep =
     (if c = sep then [] # strings_Split cs sep
      else (case strings_Split cs sep of
              [] \<Rightarrow> [[c]]
            | w # ws \<Rightarrow> (c # w) # ws))"

text \<open>\<^verbatim>\<open>strings.HasPrefix(s, "/")\<close>.\<close>

definition strings_HasPrefix :: "string \<Rightarrow> string \<Rightarrow> bool" where
  "strings_HasPrefix s pre = (take (length pre) s = pre)"

text \<open>The verb \<^verbatim>\<open>%d\<close> of \<^verbatim>\<open>fmt.Sprintf\<close>: decimal digits, a minus sign
  before a negative number.\<close>

fun decimal :: "nat \<Rightarrow> string" where
  "decimal n =
     (if n < 10 then [''0123456789'' ! n]
      else decimal (n div 10) @ [''0123456789'' ! (n mod 10)])"

declare decimal.simps [simp del]

definition Sprintf_d :: "int \<Rightarrow> string" where
  "Sprintf_d i = (if i < 0 then CHR ''-'' # decimal (nat (- i)) else decimal (nat i))"

text \<open>The built-in \<^verbatim>\<open>len\<close> of a slice that may be nil.\<close>

definition len :: "'a list option \<Rightarrow> nat" where
  "len s = (case s of None \<Rightarrow> 0 | Some xs \<Rightarrow> length xs)"

subsection \<open>The field mappers\<close>

definition getName :: "generateOptions \<Rightarrow> string" where
  "getName opts = (if ProjectName opts \<noteq> [] then ProjectName opts else [])"

definition getWorkingDir :: "Collaborators \<Rightarrow> generateOptions \<Rightarrow> string \<times> event list" where
  "getWorkingDir X opts =
     (if WorkDir opts \<noteq> [] then (WorkDir opts, [])
      else (case Getwd X of
              Inl err \<Rightarrow> ([], [WorkingDirWarning err])
            | Inr currentWorkDir \<Rightarrow> (currentWorkDir, [])))"

definition getServiceName :: "ContainerJSON \<Rightarrow> int \<Rightarrow> string" where
  "getServiceName c seed =
     (if Name c \<noteq> [] then
        (if strings_HasPrefix (Name c) ''/'' then drop 1 (Name c) else Name c)
      else ''service-'' @ Sprintf_d seed)"

text \<open>The inner loop of the port mapper (lines 162 to 171): one entry per binding, and
  the bare port marked in \<^verbatim>\<open>portsBinding\<close>.\<close>

fun bindings_loop ::
  "Collaborators \<Rightarrow> string \<Rightarrow> PortBinding list \<Rightarrow>
   ServicePortConfig list \<times> (string \<rightharpoonup> bool) \<Rightarrow> ServicePortConfig list \<times> (string \<rightharpoonup> bool)" where
  "bindings_loop X port [] (ports, portsBinding) = (ports, portsBinding)"
| "bindings_loop X port (binding # rest) (ports, portsBinding) =
     bindings_loop X port rest
       (ports @ [\<lparr>Port_HostIP = HostIP binding, Port_Published = HostPort binding,
                  Port_Target = word_of_int (nat_Int X port)\<rparr>],
        portsBinding(nat_Port X port \<mapsto> True))"

text \<open>The outer loop (lines 160 to 173).\<close>

fun portBindings_loop ::
  "Collaborators \<Rightarrow> (string \<times> PortBinding list) list \<Rightarrow>
   ServicePortConfig list \<times> (string \<rightharpoonup> bool) \<Rightarrow> ServicePortConfig list \<times> (string \<rightharpoonup> bool)" where
  "portBindings_loop X [] acc = acc"
| "portBindings_loop X ((port, bindings) # rest) acc =
     (if length bindings > 0 then portBindings_loop X rest (bindings_loop X port bindings acc)
      else portBindings_loop X rest acc)"

text \<open>The loop over the exposed ports (lines 176 to 183).\<close>

fun exposed_loop ::
  "Collaborators \<Rightarrow> (string \<rightharpoonup> bool) \<Rightarrow> string list \<Rightarrow> string list \<Rightarrow> string list" where
  "exposed_loop X portsBinding [] exposedPorts = exposedPorts"
| "exposed_loop X portsBinding (exposed # rest) exposedPorts =
     (if portsBinding (nat_Port X exposed) = None
      then exposed_loop X portsBinding rest (exposedPorts @ [nat_Port X exposed])
      else exposed_loop X portsBinding rest exposedPorts)"

definition getServiceBindingsPorts ::
  "Collaborators \<Rightarrow> ContainerJSON \<Rightarrow> ServicePortConfig list \<times> string list" where
  "getServiceBindingsPorts X c =
     (case portBindings_loop X (PortBindings (HostConfig c)) ([], Map.empty) of
        (ports, portsBinding) \<Rightarrow>
          (ports, exposed_loop X portsBinding (ExposedPorts (Config c)) []))"

definition getServiceEntrypoint :: "ContainerJSON \<Rightarrow> string list option" where
  "getServiceEntrypoint c = Entrypoint (Config c)"

definition getServiceCmd :: "ContainerJSON \<Rightarrow> string list option" where
  "getServiceCmd c = Cmd (Config c)"

definition getServiceImage :: "ContainerJSON \<Rightarrow> string" where
  "getServiceImage c = Image (Config c)"

text \<open>The loop over the legacy bind strings (lines 209 to 233).\<close>

fun binds_loop ::
  "string list \<Rightarrow> ServiceVolumeConfig list \<times> event list \<Rightarrow>
   ServiceVolumeConfig list \<times> event list" where
  "binds_loop [] (mounts, out) = (mounts, out)"
| "binds_loop (bString # rest) (mounts, out) =
     (let options = strings_Split bString (CHR '':'') in
      if length options < 2 then binds_loop rest (mounts, out @ [UnableToProcessBind bString])
      else
        let bind = \<lparr>Volume_Type = ''bind'', Volume_Source = options ! 0,
                    Volume_Target = options ! 1, Volume_ReadOnly = True,
                    Volume_Consistency = [], Volume_Bind = None, Volume_Volume = None,
                    Volume_Tmpfs = None\<rparr>;
            bind = (if length options = 3 \<and> options ! 2 = ''rw''
                    then bind\<lparr>Volume_ReadOnly := False\<rparr> else bind)
        in binds_loop rest (mounts @ [bind], out))"

text \<open>The body of the loop over the structured mounts (lines 237 to 265).\<close>

definition mountOf :: "Mount \<Rightarrow> ServiceVolumeConfig" where
  "mountOf m =
     \<lparr>Volume_Type = Mount_Type m, Volume_Source = Mount_Source m,
      Volume_Target = Mount_Target m, Volume_ReadOnly = Mount_ReadOnly m,
      Volume_Consistency = Mount_Consistency m,
      Volume_Bind = (case Mount_BindOptions m of
                       None \<Rightarrow> None
                     | Some b \<Rightarrow> Some \<lparr>Bind_Propagation = Propagation b,
                                        Bind_CreateHostPath = CreateMountpoint b\<rparr>),
      Volume_Volume = (case Mount_VolumeOptions m of
                         None \<Rightarrow> None
                       | Some v \<Rightarrow> Some \<lparr>Volume_NoCopy = NoCopy v,
                                          Volume_Subpath = Subpath v\<rparr>),
      Volume_Tmpfs = (case Mount_TmpfsOptions m of
                        None \<Rightarrow> None
                      | Some t \<Rightarrow> Some \<lparr>Tmpfs_Size = SizeBytes t, Tmpfs_Mode = Mode t\<rparr>)\<rparr>"

fun mounts_loop :: "Mount list \<Rightarrow> ServiceVolumeConfig list \<Rightarrow> ServiceVolumeConfig list" where
  "mounts_loop [] mounts = mounts"
| "mounts_loop (m # rest) mounts = mounts_loop rest (mounts @ [mountOf m])"

definition getServiceMounts :: "ContainerJSON \<Rightarrow> ServiceVolumeConfig list \<times> event list" where
  "getServiceMounts c =
     (case binds_loop (Binds (HostConfig c)) ([], []) of
        (mounts, out) \<Rightarrow> (mounts_loop (Mounts (HostConfig c)) mounts, out))"

subsection \<open>The environment mapper\<close>

text \<open>
  Modelled from the spec: \<^verbatim>\<open>types.NewMappingWithEquals\<close> and the type
  \<^verbatim>\<open>types.MappingWithEquals\<close> belong to the Compose model package, which is not
  part of the source at hand; \<^verbatim>\<open>getServiceEnv\<close> only forwards to it. The
  specification describes an ordered mapping from a key to an optional value: a bare
  \<^verbatim>\<open>KEY\<close> has no value, \<^verbatim>\<open>KEY=VALUE\<close> is split at the first \<^verbatim>\<open>=\<close>, the
  order of the input is kept and the last occurrence of a key wins.
\<close>

definition splitEnv :: "string \<Rightarrow> string \<times> string option" where
  "splitEnv env =
     (if CHR ''='' \<in> set env
      then (takeWhile (\<lambda>c. c \<noteq> CHR ''='') env, Some (drop 1 (dropWhile (\<lambda>c. c \<noteq> CHR ''='') env)))
      else (env, None))"

fun assign :: "MappingWithEquals \<Rightarrow> string \<Rightarrow> string option \<Rightarrow> MappingWithEquals" where
  "assign [] k v = [(k, v)]"
| "assign ((k', v') # rest) k v =
     (if k' = k then (k, v) # rest else (k', v') # assign rest k v)"

fun NewMappingWithEquals_loop :: "string list \<Rightarrow> MappingWithEquals \<Rightarrow> MappingWithEquals" where
  "NewMappingWithEquals_loop [] mapping = mapping"
| "NewMappingWithEquals_loop (env # rest) mapping =
     (case splitEnv env of (k, v) \<Rightarrow> NewMappingWithEquals_loop rest (assign mapping k v))"

definition NewMappingWithEquals :: "string list \<Rightarrow> MappingWithEquals" where
  "NewMappingWithEquals values = NewMappingWithEquals_loop values []"

definition getServiceEnv :: "ContainerJSON \<Rightarrow> MappingWithEquals" where
  "getServiceEnv c = NewMappingWithEquals (Env (Config c))"

subsection \<open>The pipeline\<close>

text \<open>The body of the loop of \<^verbatim>\<open>runGenerate\<close> after a successful inspect (lines 73
  to 95): the service assembled for the container at position \<open>i\<close>, and what the
  mappers printed.\<close>

definition assemble :: "Collaborators \<Rightarrow> ContainerJSON \<Rightarrow> nat \<Rightarrow> ServiceConfig \<times> event list" where
  "assemble X container i =
     (let name = getServiceName container (int i);
          (ports, expose) = getServiceBindingsPorts X container;
          environment = getServiceEnv container;
          entrypoint = getServiceEntrypoint container;
          (volumes, out) = getServiceMounts container;
          image = getServiceImage container;
          service = \<lparr>Service_Name = name, Service_Image = image,
                     Service_Environment = environment, Service_Expose = expose,
                     Service_Entrypoint = entrypoint, Service_Ports = ports,
                     Service_Volumes = volumes, Service_Command = None\<rparr>;
          cmd = getServiceCmd container;
          service = (if len cmd > 0 then service\<lparr>Service_Command := cmd\<rparr> else service)
      in (service, out))"

text \<open>The loop of \<^verbatim>\<open>runGenerate\<close> (lines 67 to 102): \<open>Inl\<close> is the early return of
  line 71, with what had been printed by then.\<close>

fun services_loop ::
  "Collaborators \<Rightarrow> nat \<Rightarrow> string list \<Rightarrow> (string \<rightharpoonup> ServiceConfig) \<times> event list \<Rightarrow>
   (error \<times> event list) + ((string \<rightharpoonup> ServiceConfig) \<times> event list)" where
  "services_loop X i [] (services, out) = Inr (services, out)"
| "services_loop X i (arg # rest) (services, out) =
     (case ContainerInspect X arg of
        Inl err \<Rightarrow> Inl (err, out @ [FailedToInspect err])
      | Inr container \<Rightarrow>
          (case assemble X container i of
             (service, printed) \<Rightarrow>
               services_loop X (Suc i) rest
                 (services(Service_Name service \<mapsto> service), out @ printed)))"

text \<open>\<^verbatim>\<open>runGenerate\<close>: the returned error (\<open>None\<close> for nil) and everything written.\<close>

definition runGenerate ::
  "Collaborators \<Rightarrow> generateOptions \<Rightarrow> string list \<Rightarrow> error option \<times> event list" where
  "runGenerate X opts args =
     (let projectName = getName opts;
          (workingDir, warned) = getWorkingDir X opts
      in case services_loop X 0 args (Map.empty, [ExperimentalBanner] @ warned) of
           Inl (err, out) \<Rightarrow> (Some err, out)
         | Inr (services, out) \<Rightarrow>
             (let p = \<lparr>Project_Name = projectName, Project_WorkingDir = workingDir,
                       Project_Services = services\<rparr>;
                  (yaml, err) = MarshalYAML X p;
                  out = (case err of None \<Rightarrow> out | Some e \<Rightarrow> out @ [OopsBad e])
              in (None, out @ [Document yaml])))"

subsection \<open>Two runs on the same input\<close>

text \<open>
  Two runs that are given the same inspect record may visit its port-binding table and
  its exposed-port set in different orders. \<open>revisited c c'\<close> says that \<open>c'\<close> is the
  record \<open>c\<close> as another run sees it: the same entries in both tables, every other field
  the same. \<open>same_inspect\<close> lifts this to the outcome of an inspect call, where a failed
  call fails with the same error in both runs.
\<close>

definition revisited :: "ContainerJSON \<Rightarrow> ContainerJSON \<Rightarrow> bool" where
  "revisited c c' =
     (mset (PortBindings (HostConfig c')) = mset (PortBindings (HostConfig c))
      \<and> mset (ExposedPorts (Config c')) = mset (ExposedPorts (Config c))
      \<and> c'\<lparr>HostConfig := (HostConfig c')\<lparr>PortBindings := PortBindings (HostConfig c)\<rparr>,
             Config := (Config c')\<lparr>ExposedPorts := ExposedPorts (Config c)\<rparr>\<rparr> = c)"

definition same_inspect :: "error + ContainerJSON \<Rightarrow> error + ContainerJSON \<Rightarrow> bool" where
  "same_inspect r r' =
     (case r of
        Inl err \<Rightarrow> r' = Inl err
      | Inr c \<Rightarrow> (case r' of Inl err' \<Rightarrow> False | Inr c' \<Rightarrow> revisited c c'))"

text \<open>
  Two services that differ at most in the order of their published ports and of their
  exposed ports, and two service mappings that hold such services under the same names.
\<close>

definition same_up_to_order :: "ServiceConfig \<Rightarrow> ServiceConfig \<Rightarrow> bool" where
  "same_up_to_order s s' =
     (mset (Service_Ports s') = mset (Service_Ports s)
      \<and> mset (Service_Expose s') = mset (Service_Expose s)
      \<and> s'\<lparr>Service_Ports := Service_Ports s, Service_Expose := Service_Expose s\<rparr> = s)"

definition same_services ::
  "(string \<rightharpoonup> ServiceConfig) \<Rightarrow> (string \<rightharpoonup> ServiceConfig) \<Rightarrow> bool" where
  "same_services services services' =
     (\<forall>name. case services name of
                None \<Rightarrow> services' name = None
              | Some s \<Rightarrow> (case services' name of None \<Rightarrow> False | Some s' \<Rightarrow> same_up_to_order s s'))"

text \<open>What \<^verbatim>\<open>runGenerate\<close> writes once the loop is done (lines 110 to 114), from what
  the serializer returned.\<close>

definition emitted :: "string \<times> error option \<Rightarrow> event list" where
  "emitted r = (case snd r of None \<Rightarrow> [] | Some e \<Rightarrow> [OopsBad e]) @ [Document (fst r)]"

subsection \<open>Sample inputs\<close>

text \<open>
  Concrete collaborators and inspect records, at which the theorems below are evaluated.
  The two port functions read a key such as \<^verbatim>\<open>80/tcp\<close>: the text before the
  slash, and its decimal value.
\<close>

definition sample_Port :: "string \<Rightarrow> string" where
  "sample_Port p = takeWhile (\<lambda>c. c \<noteq> CHR ''/'') p"

definition sample_Int :: "string \<Rightarrow> int" where
  "sample_Int p = foldl (\<lambda>n c. 10 * n + (int (of_char c) - 48)) 0 (sample_Port p)"

definition web :: ContainerJSON where
  "web =
     \<lparr>Name = ''/web'',
      Config = \<lparr>Image = ''nginx'', Env = [''PATH=/usr/bin'', ''DEBUG''], Entrypoint = None,
                Cmd = None, ExposedPorts = [''80/tcp'']\<rparr>,
      HostConfig = \<lparr>PortBindings = [(''80/tcp'', [\<lparr>HostIP = ''0.0.0.0'', HostPort = ''8080''\<rparr>])],
                    Binds = [''/host:/container'', ''/host:/container:rw'', ''/host'',
                             ''/a:/b:rw:z''],
                    Mounts = []\<rparr>\<rparr>"

definition worker :: ContainerJSON where
  "worker =
     \<lparr>Name = [],
      Config = \<lparr>Image = ''busybox'', Env = [], Entrypoint = None,
                Cmd = Some [''sh'', ''-c'', ''run''], ExposedPorts = []\<rparr>,
      HostConfig = \<lparr>PortBindings = [], Binds = [], Mounts = []\<rparr>\<rparr>"

definition gateway :: ContainerJSON where
  "gateway =
     \<lparr>Name = ''/gateway'',
      Config = \<lparr>Image = ''haproxy'', Env = [], Entrypoint = Some [], Cmd = Some [],
                ExposedPorts = [''80/tcp'', ''443/tcp'', ''9000/tcp'']\<rparr>,
      HostConfig = \<lparr>PortBindings = [(''80/tcp'', [\<lparr>HostIP = ''0.0.0.0'', HostPort = ''8080''\<rparr>,
                                                  \<lparr>HostIP = ''::'', HostPort = ''8080''\<rparr>]),
                                     (''443/tcp'', [])],
                    Binds = [], Mounts = []\<rparr>\<rparr>"

definition edge :: ContainerJSON where
  "edge =
     \<lparr>Name = ''/edge'',
      Config = \<lparr>Image = ''haproxy'', Env = [], Entrypoint = None, Cmd = None,
                ExposedPorts = [''9000/tcp'', ''9001/tcp'']\<rparr>,
      HostConfig = \<lparr>PortBindings = [(''80/tcp'', [\<lparr>HostIP = ''0.0.0.0'', HostPort = ''8080''\<rparr>]),
                                     (''443/tcp'', [\<lparr>HostIP = ''0.0.0.0'', HostPort = ''8443''\<rparr>])],
                    Binds = [], Mounts = []\<rparr>\<rparr>"

text \<open>The same record as \<open>edge\<close>, its two tables visited in the other order.\<close>

definition edge' :: ContainerJSON where
  "edge' =
     \<lparr>Name = ''/edge'',
      Config = \<lparr>Image = ''haproxy'', Env = [], Entrypoint = None, Cmd = None,
                ExposedPorts = [''9001/tcp'', ''9000/tcp'']\<rparr>,
      HostConfig = \<lparr>PortBindings = [(''443/tcp'', [\<lparr>HostIP = ''0.0.0.0'', HostPort = ''8443''\<rparr>]),
                                     (''80/tcp'', [\<lparr>HostIP = ''0.0.0.0'', HostPort = ''8080''\<rparr>])],
                    Binds = [], Mounts = []\<rparr>\<rparr>"

text \<open>A container that publishes port 53 over UDP, and lists the same port over TCP
  with no binding.\<close>

definition resolver :: ContainerJSON where
  "resolver =
     \<lparr>Name = ''/resolver'',
      Config = \<lparr>Image = ''unbound'', Env = [], Entrypoint = None, Cmd = None,
                ExposedPorts = [''53/tcp'']\<rparr>,
      HostConfig = \<lparr>PortBindings = [(''53/udp'', [\<lparr>HostIP = ''0.0.0.0'', HostPort = ''5353''\<rparr>]),
                                     (''53/tcp'', [])],
                    Binds = [], Mounts = []\<rparr>\<rparr>"

text \<open>A container that the engine names \<^verbatim>\<open>/service-1\<close>, and one whose display name
  is the separator alone.\<close>

definition impostor :: ContainerJSON where
  "impostor = web\<lparr>Name := ''/service-1''\<rparr>"

definition slash :: ContainerJSON where
  "slash = worker\<lparr>Name := ''/''\<rparr>"

definition engine :: "string \<Rightarrow> error + ContainerJSON" where
  "engine arg =
     (if arg = ''web'' then Inr web
      else if arg = ''worker'' then Inr worker
      else if arg = ''gateway'' then Inr gateway
      else if arg = ''edge'' then Inr edge
      else if arg = ''impostor'' then Inr impostor
      else Inl (Error (''No such container: '' @ arg)))"

text \<open>The engine of a second run, which hands out the tables of \<open>edge\<close> in the other
  order.\<close>

definition engine' :: "string \<Rightarrow> error + ContainerJSON" where
  "engine' arg = (if arg = ''edge'' then Inr edge' else engine arg)"

text \<open>A serializer that fails, and one that writes the published host
  ports and the exposed ports of the service \<^verbatim>\<open>edge\<close> in the order of its lists.\<close>

definition failing_MarshalYAML :: "Project \<Rightarrow> string \<times> error option" where
  "failing_MarshalYAML p = ([], Some (Error ''cannot marshal''))"

definition ports_MarshalYAML :: "Project \<Rightarrow> string \<times> error option" where
  "ports_MarshalYAML p =
     (case Project_Services p ''edge'' of
        None \<Rightarrow> ([], None)
      | Some s \<Rightarrow> (concat (map Port_Published (Service_Ports s)) @ concat (Service_Expose s), None))"

definition sample :: Collaborators where
  "sample =
     \<lparr>ContainerInspect = engine, Getwd = Inr ''/srv'', MarshalYAML = ports_MarshalYAML,
      nat_Port = sample_Port, nat_Int = sample_Int\<rparr>"

definition no_opts :: generateOptions where
  "no_opts = \<lparr>ProjectName = [], WorkDir = []\<rparr>"

section \<open>Properties\<close>

subsection \<open>The port mapper\<close>

text \<open>The loops of the port mapper in closed form: the published entries are the
  concatenation, in table order, of one entry per binding; the marked bare ports are those
  of the table's ports that have a binding; the exposed tokens are the bare ports of the
  exposed set that are not marked.\<close>

lemma bindings_loop_eq:
  "bindings_loop X port bs (ports, pb) =
     (ports @ map (\<lambda>b. \<lparr>Port_HostIP = HostIP b, Port_Published = HostPort b,
                           Port_Target = word_of_int (nat_Int X port)\<rparr>) bs,
      if bs = [] then pb else pb(nat_Port X port \<mapsto> True))"
  by (induction bs arbitrary: ports pb) auto

lemma portBindings_loop_eq:
  "portBindings_loop X tbl (ports, pb) =
     (ports @ concat (map (\<lambda>(port, bs). map (\<lambda>b. \<lparr>Port_HostIP = HostIP b, Port_Published = HostPort b,
                           Port_Target = word_of_int (nat_Int X port)\<rparr>) bs) tbl),
      \<lambda>k. if k \<in> set (map (nat_Port X \<circ> fst) (filter (\<lambda>e. snd e \<noteq> []) tbl)) then Some True else pb k)"
proof (induction tbl arbitrary: ports pb)
  case Nil
  then show ?case by simp
next
  case (Cons e tbl)
  obtain port bs where e: "e = (port, bs)" by (cases e)
  show ?case
  proof (cases "bs = []")
    case True
    then show ?thesis using Cons.IH e by simp
  next
    case False
    then show ?thesis using e
      by (auto simp: bindings_loop_eq Cons.IH fun_eq_iff)
  qed
qed

lemma exposed_loop_eq:
  "exposed_loop X pb es acc = acc @ filter (\<lambda>p. pb p = None) (map (nat_Port X) es)"
  by (induction es arbitrary: acc) auto

lemma getServiceBindingsPorts_eq:
  "getServiceBindingsPorts X c =
     (concat (map (\<lambda>(port, bs). map (\<lambda>b. \<lparr>Port_HostIP = HostIP b, Port_Published = HostPort b,
                           Port_Target = word_of_int (nat_Int X port)\<rparr>) bs) (PortBindings (HostConfig c))),
      filter (\<lambda>p. p \<notin> set (map (nat_Port X \<circ> fst) (filter (\<lambda>e. snd e \<noteq> []) (PortBindings (HostConfig c)))))
        (map (nat_Port X) (ExposedPorts (Config c))))"
  by (simp add: getServiceBindingsPorts_def portBindings_loop_eq exposed_loop_eq)

lemma portBindings_loop_drop_unbound:
  "portBindings_loop X (pre @ (port, []) # post) acc = portBindings_loop X (pre @ post) acc"
  by (cases acc) (simp add: portBindings_loop_eq)

lemma marked_iff:
  "(k \<in> set (map (nat_Port X \<circ> fst) (filter (\<lambda>e. snd e \<noteq> []) tbl))) =
     (\<exists>e \<in> set tbl. snd e \<noteq> [] \<and> nat_Port X (fst e) = k)"
  by (induction tbl) auto

text \<open>
  Claim C1, as amended. For every container port of the host port-binding table with at
  least one binding, the mapper emits one published entry per binding, carrying the
  binding's host IP and host port and the container port's number as target: the
  published list is the concatenation of these entries over the table. The bare port of
  such a port never occurs in the exposed output. A port whose binding list is present
  but empty adds no entry and no mark of its own: its pass through the loop leaves the
  state as it was, and the mapper gives the same result as for the table without that
  port. Marks are kept per bare port number: the number of such a port is marked exactly
  when some port of the table with that number has a binding, and an exposed port is
  emitted exactly when no bound port of the table has its number.
\<close>

theorem port_mapper_published:
  "fst (getServiceBindingsPorts X c) =
     concat (map (\<lambda>(port, bindings).
                    map (\<lambda>binding. \<lparr>Port_HostIP = HostIP binding,
                                      Port_Published = HostPort binding,
                                      Port_Target = word_of_int (nat_Int X port)\<rparr>) bindings)
                 (PortBindings (HostConfig c)))
   \<and> (\<forall>(port, bindings) \<in> set (PortBindings (HostConfig c)).
         bindings \<noteq> [] \<longrightarrow> nat_Port X port \<notin> set (snd (getServiceBindingsPorts X c)))
   \<and> (\<forall>pre port post acc.
         PortBindings (HostConfig c) = pre @ (port, []) # post \<longrightarrow>
           portBindings_loop X [(port, [])] acc = acc
         \<and> portBindings_loop X (PortBindings (HostConfig c)) acc = portBindings_loop X (pre @ post) acc
         \<and> getServiceBindingsPorts X c =
             getServiceBindingsPorts X (c\<lparr>HostConfig := (HostConfig c)\<lparr>PortBindings := pre @ post\<rparr>\<rparr>))
   \<and> (\<forall>k. (snd (portBindings_loop X (PortBindings (HostConfig c)) ([], Map.empty)) k \<noteq> None) =
             (\<exists>e \<in> set (PortBindings (HostConfig c)). snd e \<noteq> [] \<and> nat_Port X (fst e) = k))
   \<and> (\<forall>port. (port, []) \<in> set (PortBindings (HostConfig c)) \<longrightarrow>
         (snd (portBindings_loop X (PortBindings (HostConfig c)) ([], Map.empty)) (nat_Port X port) \<noteq> None) =
           (\<exists>e \<in> set (PortBindings (HostConfig c)).
               snd e \<noteq> [] \<and> nat_Port X (fst e) = nat_Port X port))
   \<and> (\<forall>exposed \<in> set (ExposedPorts (Config c)).
         (nat_Port X exposed \<in> set (snd (getServiceBindingsPorts X c))) =
           (\<forall>e \<in> set (PortBindings (HostConfig c)).
               snd e \<noteq> [] \<longrightarrow> nat_Port X (fst e) \<noteq> nat_Port X exposed))"
proof (intro conjI)
  show marks: "\<forall>k. (snd (portBindings_loop X (PortBindings (HostConfig c)) ([], Map.empty)) k \<noteq> None) =
             (\<exists>e \<in> set (PortBindings (HostConfig c)). snd e \<noteq> [] \<and> nat_Port X (fst e) = k)"
    by (auto simp: portBindings_loop_eq)
  show "\<forall>port. (port, []) \<in> set (PortBindings (HostConfig c)) \<longrightarrow>
         (snd (portBindings_loop X (PortBindings (HostConfig c)) ([], Map.empty)) (nat_Port X port) \<noteq> None) =
           (\<exists>e \<in> set (PortBindings (HostConfig c)).
               snd e \<noteq> [] \<and> nat_Port X (fst e) = nat_Port X port)"
    using marks by blast
next
  show "\<forall>exposed \<in> set (ExposedPorts (Config c)).
         (nat_Port X exposed \<in> set (snd (getServiceBindingsPorts X c))) =
           (\<forall>e \<in> set (PortBindings (HostConfig c)).
               snd e \<noteq> [] \<longrightarrow> nat_Port X (fst e) \<noteq> nat_Port X exposed)"
  proof
    fix exposed
    assume ex: "exposed \<in> set (ExposedPorts (Config c))"
    have "(nat_Port X exposed \<in> set (snd (getServiceBindingsPorts X c))) =
        (nat_Port X exposed \<notin> set (map (nat_Port X \<circ> fst)
           (filter (\<lambda>e. snd e \<noteq> []) (PortBindings (HostConfig c)))))"
      using ex by (auto simp: getServiceBindingsPorts_eq)
    also have "\<dots> = (\<forall>e \<in> set (PortBindings (HostConfig c)).
               snd e \<noteq> [] \<longrightarrow> nat_Port X (fst e) \<noteq> nat_Port X exposed)"
      unfolding marked_iff by auto
    finally show "(nat_Port X exposed \<in> set (snd (getServiceBindingsPorts X c))) =
           (\<forall>e \<in> set (PortBindings (HostConfig c)).
               snd e \<noteq> [] \<longrightarrow> nat_Port X (fst e) \<noteq> nat_Port X exposed)" .
  qed
next
  show "fst (getServiceBindingsPorts X c) =
     concat (map (\<lambda>(port, bindings).
                    map (\<lambda>binding. \<lparr>Port_HostIP = HostIP binding,
                                      Port_Published = HostPort binding,
                                      Port_Target = word_of_int (nat_Int X port)\<rparr>) bindings)
                 (PortBindings (HostConfig c)))"
    by (simp add: getServiceBindingsPorts_eq)
next
  show "\<forall>(port, bindings) \<in> set (PortBindings (HostConfig c)).
         bindings \<noteq> [] \<longrightarrow> nat_Port X port \<notin> set (snd (getServiceBindingsPorts X c))"
    by (force simp: getServiceBindingsPorts_eq)
next
  show "\<forall>pre port post acc.
         PortBindings (HostConfig c) = pre @ (port, []) # post \<longrightarrow>
           portBindings_loop X [(port, [])] acc = acc
         \<and> portBindings_loop X (PortBindings (HostConfig c)) acc = portBindings_loop X (pre @ post) acc
         \<and> getServiceBindingsPorts X c =
             getServiceBindingsPorts X (c\<lparr>HostConfig := (HostConfig c)\<lparr>PortBindings := pre @ post\<rparr>\<rparr>)"
  proof (intro allI impI conjI)
    fix pre port post acc
    assume tbl: "PortBindings (HostConfig c) = pre @ (port, []) # post"
    show "portBindings_loop X [(port, [])] acc = acc" by simp
    show "portBindings_loop X (PortBindings (HostConfig c)) acc = portBindings_loop X (pre @ post) acc"
      by (simp only: tbl portBindings_loop_drop_unbound)
    show "getServiceBindingsPorts X c =
             getServiceBindingsPorts X (c\<lparr>HostConfig := (HostConfig c)\<lparr>PortBindings := pre @ post\<rparr>\<rparr>)"
      by (simp add: getServiceBindingsPorts_def tbl portBindings_loop_drop_unbound)
  qed
qed

theorem port_mapper_published_witness:
  "fst (getServiceBindingsPorts sample gateway) =
     [\<lparr>Port_HostIP = ''0.0.0.0'', Port_Published = ''8080'', Port_Target = 80\<rparr>,
      \<lparr>Port_HostIP = ''::'', Port_Published = ''8080'', Port_Target = 80\<rparr>]
   \<and> (''80/tcp'', [\<lparr>HostIP = ''0.0.0.0'', HostPort = ''8080''\<rparr>, \<lparr>HostIP = ''::'', HostPort = ''8080''\<rparr>])
        \<in> set (PortBindings (HostConfig gateway))
   \<and> ''80'' \<notin> set (snd (getServiceBindingsPorts sample gateway))
   \<and> PortBindings (HostConfig gateway) =
        [(''80/tcp'', [\<lparr>HostIP = ''0.0.0.0'', HostPort = ''8080''\<rparr>, \<lparr>HostIP = ''::'', HostPort = ''8080''\<rparr>])]
        @ (''443/tcp'', []) # []
   \<and> getServiceBindingsPorts sample gateway =
       getServiceBindingsPorts sample
         (gateway\<lparr>HostConfig := (HostConfig gateway)\<lparr>PortBindings :=
            [(''80/tcp'', [\<lparr>HostIP = ''0.0.0.0'', HostPort = ''8080''\<rparr>, \<lparr>HostIP = ''::'', HostPort = ''8080''\<rparr>])] @ []\<rparr>\<rparr>)
   \<and> snd (getServiceBindingsPorts sample gateway) = [''443'', ''9000'']
   \<and> (''443/tcp'', []) \<in> set (PortBindings (HostConfig gateway))
   \<and> snd (portBindings_loop sample (PortBindings (HostConfig gateway)) ([], Map.empty)) ''443''
       = None
   \<and> ''443/tcp'' \<in> set (ExposedPorts (Config gateway))
   \<and> ''443'' \<in> set (snd (getServiceBindingsPorts sample gateway))"
proof -
  have tbl: "PortBindings (HostConfig gateway) =
        [(''80/tcp'', [\<lparr>HostIP = ''0.0.0.0'', HostPort = ''8080''\<rparr>, \<lparr>HostIP = ''::'', HostPort = ''8080''\<rparr>])]
        @ (''443/tcp'', []) # []"
    by (simp add: gateway_def)
  have mem: "(''80/tcp'', [\<lparr>HostIP = ''0.0.0.0'', HostPort = ''8080''\<rparr>, \<lparr>HostIP = ''::'', HostPort = ''8080''\<rparr>])
        \<in> set (PortBindings (HostConfig gateway))"
    by (simp add: gateway_def)
  note inst = port_mapper_published [of sample gateway]
  have ports: "fst (getServiceBindingsPorts sample gateway) =
     [\<lparr>Port_HostIP = ''0.0.0.0'', Port_Published = ''8080'', Port_Target = 80\<rparr>,
      \<lparr>Port_HostIP = ''::'', Port_Published = ''8080'', Port_Target = 80\<rparr>]"
    using inst by (simp add: gateway_def sample_def sample_Int_def sample_Port_def)
  have bare: "nat_Port sample ''80/tcp'' = ''80''"
    by (simp add: sample_def sample_Port_def)
  have notexp: "''80'' \<notin> set (snd (getServiceBindingsPorts sample gateway))"
    using inst mem bare by fastforce
  have same: "getServiceBindingsPorts sample gateway =
       getServiceBindingsPorts sample
         (gateway\<lparr>HostConfig := (HostConfig gateway)\<lparr>PortBindings :=
            [(''80/tcp'', [\<lparr>HostIP = ''0.0.0.0'', HostPort = ''8080''\<rparr>, \<lparr>HostIP = ''::'', HostPort = ''8080''\<rparr>])] @ []\<rparr>\<rparr>)"
    using inst tbl by blast
  have exposed: "snd (getServiceBindingsPorts sample gateway) = [''443'', ''9000'']"
    by (simp add: getServiceBindingsPorts_def gateway_def sample_def sample_Port_def)
  have unbound: "(''443/tcp'', []) \<in> set (PortBindings (HostConfig gateway))"
    and listed: "''443/tcp'' \<in> set (ExposedPorts (Config gateway))"
    by (simp_all add: gateway_def)
  have bare': "nat_Port sample ''443/tcp'' = ''443''"
    by (simp add: sample_def sample_Port_def)
  have alone: "\<forall>e \<in> set (PortBindings (HostConfig gateway)).
      snd e \<noteq> [] \<longrightarrow> nat_Port sample (fst e) \<noteq> nat_Port sample ''443/tcp''"
    by (simp add: gateway_def sample_def sample_Port_def)
  have unmarked: "snd (portBindings_loop sample (PortBindings (HostConfig gateway)) ([], Map.empty)) ''443''
       = None"
    using inst unbound alone bare' by (metis (no_types, lifting))
  have kept: "''443'' \<in> set (snd (getServiceBindingsPorts sample gateway))"
    using inst listed alone bare' by (metis (no_types, lifting))
  show ?thesis using tbl mem ports notexp same exposed unbound listed unmarked kept by blast
qed

text \<open>
  Claim C1 as stated fails in its last clause: the record \<open>resolver\<close> binds
  \<^verbatim>\<open>53/udp\<close> and lists \<^verbatim>\<open>53/tcp\<close> with an empty binding list. The number 53
  is marked by the UDP port, so the TCP port counts as published although it has no
  binding, and its exposed token is dropped.
\<close>

theorem empty_binding_marked_by_sibling:
  "(''53/tcp'', []) \<in> set (PortBindings (HostConfig resolver))
   \<and> nat_Port sample ''53/tcp'' = ''53''
   \<and> snd (portBindings_loop sample (PortBindings (HostConfig resolver)) ([], Map.empty)) ''53''
       = Some True
   \<and> ''53/tcp'' \<in> set (ExposedPorts (Config resolver))
   \<and> getServiceBindingsPorts sample resolver =
       ([\<lparr>Port_HostIP = ''0.0.0.0'', Port_Published = ''5353'', Port_Target = 53\<rparr>], [])"
  by (simp add: resolver_def sample_def sample_Port_def sample_Int_def
      getServiceBindingsPorts_eq portBindings_loop_eq)

subsection \<open>The mount mapper\<close>

lemma strings_Split_nonempty: "strings_Split s sep \<noteq> []"
  by (induction s) (auto split: list.splits)

lemma strings_Split_single: "(length (strings_Split s sep) < 2) = (sep \<notin> set s)"
  by (induction s) (auto split: list.splits simp: strings_Split_nonempty)

lemma mounts_loop_eq: "mounts_loop ms mounts = mounts @ map mountOf ms"
  by (induction ms arbitrary: mounts) auto

text \<open>The loop over the legacy bind strings in closed form: each string contributes on
  its own, whatever came before it.\<close>

lemma binds_loop_eq:
  "binds_loop bs (mounts, out) =
     (mounts @ concat (map (\<lambda>b. case strings_Split b (CHR '':'') of
                                   src # tgt # modes \<Rightarrow>
                                     [\<lparr>Volume_Type = ''bind'', Volume_Source = src,
                                       Volume_Target = tgt, Volume_ReadOnly = (modes \<noteq> [''rw'']),
                                       Volume_Consistency = [], Volume_Bind = None,
                                       Volume_Volume = None, Volume_Tmpfs = None\<rparr>]
                                 | _ \<Rightarrow> []) bs),
      out @ map UnableToProcessBind (filter (\<lambda>b. length (strings_Split b (CHR '':'')) < 2) bs))"
proof (induction bs arbitrary: mounts out)
  case Nil
  then show ?case by simp
next
  case (Cons b bs)
  show ?case
  proof (cases "strings_Split b (CHR '':'')")
    case Nil
    then show ?thesis by (simp add: strings_Split_nonempty)
  next
    case one: (Cons src r1)
    show ?thesis
    proof (cases r1)
      case Nil
      then show ?thesis using one by (simp add: Cons.IH)
    next
      case two: (Cons tgt modes)
      show ?thesis
      proof (cases modes)
        case Nil
        then show ?thesis using one two by (simp add: Cons.IH)
      next
        case three: (Cons third r3)
        show ?thesis
        proof (cases r3)
          case Nil
          then show ?thesis using one two three by (cases "third = ''rw''") (simp_all add: Cons.IH Let_def)
        next
          case (Cons fourth r4)
          then show ?thesis using one two three by (cases "third = ''rw''") (simp_all add: Cons.IH Let_def)
        qed
      qed
    qed
  qed
qed

text \<open>
  Claim C3. Every legacy bind string is split on \<^verbatim>\<open>:\<close> and handled on its own. With
  fewer than two fields it contributes no mount and one warning, and the strings after it
  are still processed. With two or more fields it contributes one bind mount whose source
  and target are the first two fields; the mount is read-only unless the fields after the
  target are exactly the one field \<^verbatim>\<open>rw\<close>. So two fields give read-only, three
  fields with \<^verbatim>\<open>rw\<close> give read-write, and any other third field leaves read-only set.
  The structured mounts follow the legacy ones.
\<close>

theorem legacy_binds:
  "fst (getServiceMounts c) =
     concat (map (\<lambda>bString. case strings_Split bString (CHR '':'') of
                                src # tgt # modes \<Rightarrow>
                                  [\<lparr>Volume_Type = ''bind'', Volume_Source = src,
                                    Volume_Target = tgt, Volume_ReadOnly = (modes \<noteq> [''rw'']),
                                    Volume_Consistency = [], Volume_Bind = None,
                                    Volume_Volume = None, Volume_Tmpfs = None\<rparr>]
                              | _ \<Rightarrow> [])
                 (Binds (HostConfig c)))
     @ map mountOf (Mounts (HostConfig c))
   \<and> snd (getServiceMounts c) =
       map UnableToProcessBind
         (filter (\<lambda>bString. length (strings_Split bString (CHR '':'')) < 2) (Binds (HostConfig c)))"
  by (simp add: getServiceMounts_def binds_loop_eq mounts_loop_eq)


theorem legacy_binds_witness:
  "getServiceMounts web =
     ([\<lparr>Volume_Type = ''bind'', Volume_Source = ''/host'', Volume_Target = ''/container'',
        Volume_ReadOnly = True, Volume_Consistency = [], Volume_Bind = None,
        Volume_Volume = None, Volume_Tmpfs = None\<rparr>,
       \<lparr>Volume_Type = ''bind'', Volume_Source = ''/host'', Volume_Target = ''/container'',
        Volume_ReadOnly = False, Volume_Consistency = [], Volume_Bind = None,
        Volume_Volume = None, Volume_Tmpfs = None\<rparr>,
       \<lparr>Volume_Type = ''bind'', Volume_Source = ''/a'', Volume_Target = ''/b'',
        Volume_ReadOnly = True, Volume_Consistency = [], Volume_Bind = None,
        Volume_Volume = None, Volume_Tmpfs = None\<rparr>],
      [UnableToProcessBind ''/host''])"
proof -
  have "fst (getServiceMounts web) =
     [\<lparr>Volume_Type = ''bind'', Volume_Source = ''/host'', Volume_Target = ''/container'',
        Volume_ReadOnly = True, Volume_Consistency = [], Volume_Bind = None,
        Volume_Volume = None, Volume_Tmpfs = None\<rparr>,
       \<lparr>Volume_Type = ''bind'', Volume_Source = ''/host'', Volume_Target = ''/container'',
        Volume_ReadOnly = False, Volume_Consistency = [], Volume_Bind = None,
        Volume_Volume = None, Volume_Tmpfs = None\<rparr>,
       \<lparr>Volume_Type = ''bind'', Volume_Source = ''/a'', Volume_Target = ''/b'',
        Volume_ReadOnly = True, Volume_Consistency = [], Volume_Bind = None,
        Volume_Volume = None, Volume_Tmpfs = None\<rparr>]"
    and "snd (getServiceMounts web) = [UnableToProcessBind ''/host'']"
    using legacy_binds [of web] by (simp_all add: web_def)
  then show ?thesis by (simp add: prod_eq_iff)
qed

text \<open>
  Claim C10. A legacy bind string with four or more fields still yields a bind mount, with
  the first two fields as source and target and read-only set, whatever the third field
  is: the step of the loop appends that mount, and the mount is in the mapper's result for
  every container that has the string among its binds. The flag is cleared only for a
  string of exactly three fields whose third is \<^verbatim>\<open>rw\<close>.
\<close>

theorem legacy_bind_four_fields:
  "(4 \<le> length (strings_Split bString (CHR '':'')) \<longrightarrow>
      binds_loop (bString # rest) (mounts, out) =
        binds_loop rest
          (mounts @ [\<lparr>Volume_Type = ''bind'',
                       Volume_Source = strings_Split bString (CHR '':'') ! 0,
                       Volume_Target = strings_Split bString (CHR '':'') ! 1,
                       Volume_ReadOnly = True, Volume_Consistency = [], Volume_Bind = None,
                       Volume_Volume = None, Volume_Tmpfs = None\<rparr>], out)
    \<and> (bString \<in> set (Binds (HostConfig c)) \<longrightarrow>
         \<lparr>Volume_Type = ''bind'',
          Volume_Source = strings_Split bString (CHR '':'') ! 0,
          Volume_Target = strings_Split bString (CHR '':'') ! 1,
          Volume_ReadOnly = True, Volume_Consistency = [], Volume_Bind = None,
          Volume_Volume = None, Volume_Tmpfs = None\<rparr> \<in> set (fst (getServiceMounts c))))
   \<and> (\<forall>v \<in> set (fst (binds_loop bs ([], []))).
         \<not> Volume_ReadOnly v \<longrightarrow>
           (\<exists>b \<in> set bs. strings_Split b (CHR '':'') = [Volume_Source v, Volume_Target v, ''rw'']))"
proof (intro conjI impI)
  assume four: "4 \<le> length (strings_Split bString (CHR '':''))"
  then show "binds_loop (bString # rest) (mounts, out) =
        binds_loop rest
          (mounts @ [\<lparr>Volume_Type = ''bind'',
                       Volume_Source = strings_Split bString (CHR '':'') ! 0,
                       Volume_Target = strings_Split bString (CHR '':'') ! 1,
                       Volume_ReadOnly = True, Volume_Consistency = [], Volume_Bind = None,
                       Volume_Volume = None, Volume_Tmpfs = None\<rparr>], out)"
    by (simp add: Let_def)
  assume mem: "bString \<in> set (Binds (HostConfig c))"
  obtain src tgt third fourth more' where
    fields: "strings_Split bString (CHR '':'') = src # tgt # third # fourth # more'"
    using four by (auto simp: Suc_le_length_iff numeral_eq_Suc)
  show "\<lparr>Volume_Type = ''bind'',
          Volume_Source = strings_Split bString (CHR '':'') ! 0,
          Volume_Target = strings_Split bString (CHR '':'') ! 1,
          Volume_ReadOnly = True, Volume_Consistency = [], Volume_Bind = None,
          Volume_Volume = None, Volume_Tmpfs = None\<rparr> \<in> set (fst (getServiceMounts c))"
    using mem fields
    by (simp add: getServiceMounts_def binds_loop_eq mounts_loop_eq) (force simp: fields)
next
  show "\<forall>v \<in> set (fst (binds_loop bs ([], []))).
         \<not> Volume_ReadOnly v \<longrightarrow>
           (\<exists>b \<in> set bs. strings_Split b (CHR '':'') = [Volume_Source v, Volume_Target v, ''rw''])"
    by (auto simp: binds_loop_eq split: list.splits)
qed

theorem legacy_bind_four_fields_witness:
  "4 \<le> length (strings_Split ''/a:/b:rw:z'' (CHR '':''))
   \<and> strings_Split ''/a:/b:rw:z'' (CHR '':'') ! 2 = ''rw''
   \<and> ''/a:/b:rw:z'' \<in> set (Binds (HostConfig web))
   \<and> \<lparr>Volume_Type = ''bind'', Volume_Source = ''/a'', Volume_Target = ''/b'',
       Volume_ReadOnly = True, Volume_Consistency = [], Volume_Bind = None,
       Volume_Volume = None, Volume_Tmpfs = None\<rparr> \<in> set (fst (getServiceMounts web))"
proof -
  have four: "4 \<le> length (strings_Split ''/a:/b:rw:z'' (CHR '':''))" by simp
  have rw: "strings_Split ''/a:/b:rw:z'' (CHR '':'') ! 2 = ''rw''" by simp
  have mem: "''/a:/b:rw:z'' \<in> set (Binds (HostConfig web))" by (simp add: web_def)
  have "\<lparr>Volume_Type = ''bind'',
          Volume_Source = strings_Split ''/a:/b:rw:z'' (CHR '':'') ! 0,
          Volume_Target = strings_Split ''/a:/b:rw:z'' (CHR '':'') ! 1,
          Volume_ReadOnly = True, Volume_Consistency = [], Volume_Bind = None,
          Volume_Volume = None, Volume_Tmpfs = None\<rparr> \<in> set (fst (getServiceMounts web))"
    using legacy_bind_four_fields [of "''/a:/b:rw:z''" "[]" "[]" "[]" web "[]"] four mem
    by blast
  then show ?thesis using four rw mem by simp
qed

subsection \<open>The service assembler\<close>

lemma assemble_eq:
  "assemble X c i =
     (\<lparr>Service_Name = getServiceName c (int i), Service_Image = getServiceImage c,
       Service_Environment = getServiceEnv c,
       Service_Expose = snd (getServiceBindingsPorts X c),
       Service_Entrypoint = getServiceEntrypoint c,
       Service_Ports = fst (getServiceBindingsPorts X c),
       Service_Volumes = fst (getServiceMounts c),
       Service_Command = (if 0 < len (getServiceCmd c) then getServiceCmd c else None)\<rparr>,
      snd (getServiceMounts c))"
  by (simp add: assemble_def Let_def split: prod.splits)

text \<open>
  Claim C4. The assembled service has a command exactly when the container's command
  list is non-empty, and then it is that list; for an empty or nil list the field stays
  unset.
\<close>

theorem command_present_iff_nonempty:
  "(Service_Command (fst (assemble X c i)) \<noteq> None) = (0 < len (Cmd (Config c)))
   \<and> (0 < len (Cmd (Config c)) \<longrightarrow> Service_Command (fst (assemble X c i)) = Cmd (Config c))
   \<and> (len (Cmd (Config c)) = 0 \<longrightarrow> Service_Command (fst (assemble X c i)) = None)"
  by (auto simp: assemble_eq getServiceCmd_def len_def split: option.splits)

theorem command_present_iff_nonempty_witness:
  "0 < len (Cmd (Config worker))
   \<and> Service_Command (fst (assemble sample worker 1)) = Some [''sh'', ''-c'', ''run'']
   \<and> len (Cmd (Config web)) = 0 \<and> Service_Command (fst (assemble sample web 0)) = None
   \<and> Cmd (Config gateway) = Some [] \<and> Service_Command (fst (assemble sample gateway 2)) = None"
proof -
  have w: "0 < len (Cmd (Config worker))" by (simp add: worker_def len_def)
  have e: "len (Cmd (Config web)) = 0" by (simp add: web_def len_def)
  have g: "len (Cmd (Config gateway)) = 0" "Cmd (Config gateway) = Some []"
    by (simp_all add: gateway_def len_def)
  have "Service_Command (fst (assemble sample worker 1)) = Cmd (Config worker)"
    using command_present_iff_nonempty [of sample worker 1] w by blast
  moreover have "Service_Command (fst (assemble sample web 0)) = None"
    using command_present_iff_nonempty [of sample web 0] e by blast
  moreover have "Service_Command (fst (assemble sample gateway 2)) = None"
    using command_present_iff_nonempty [of sample gateway 2] g by blast
  ultimately show ?thesis using w e g by (simp add: worker_def)
qed

subsection \<open>The pipeline\<close>

text \<open>The loop of the pipeline in closed form. When every inspect call succeeds, the
  service mapping is the list of the named services read from its end, so that the last
  service of a name is the one found. When a call fails, the loop returns that error, and
  has printed what the mappers printed for the containers before it.\<close>

lemma assemble_name: "Service_Name (fst (assemble X c i)) = getServiceName c (int i)"
  by (simp add: assemble_eq)

lemma services_loop_ok:
  "map (ContainerInspect X) args = map Inr cs \<Longrightarrow>
   services_loop X i args (services, out) =
     Inr (services ++ map_of (rev (map (\<lambda>(k, c). (getServiceName c (int k), fst (assemble X c k)))
                                       (enumerate i cs))),
          out @ concat (map (\<lambda>(k, c). snd (assemble X c k)) (enumerate i cs)))"
proof (induction args arbitrary: cs i services out)
  case Nil
  then show ?case by simp
next
  case (Cons arg args)
  then obtain c cs' where cs: "cs = c # cs'" "ContainerInspect X arg = Inr c"
    "map (ContainerInspect X) args = map Inr cs'"
    by (cases cs) auto
  show ?case
    using Cons.IH [OF cs(3)] cs(1,2)
    by (simp add: assemble_name case_prod_beta fun_upd_def)
       (simp add: fun_eq_iff map_add_def split: option.splits)
qed

lemma services_loop_fail:
  "map (ContainerInspect X) pre = map Inr cs \<Longrightarrow> ContainerInspect X arg = Inl err \<Longrightarrow>
   services_loop X i (pre @ arg # post) (services, out) =
     Inl (err, out @ concat (map (\<lambda>(k, c). snd (assemble X c k)) (enumerate i cs))
               @ [FailedToInspect err])"
proof (induction pre arbitrary: cs i services out)
  case Nil
  then show ?case by simp
next
  case (Cons p pre)
  then obtain c cs' where cs: "cs = c # cs'" "ContainerInspect X p = Inr c"
    "map (ContainerInspect X) pre = map Inr cs'"
    by (cases cs) auto
  show ?case
    using Cons.IH [OF cs(3) Cons.prems(2)] cs(1,2)
    by (simp add: case_prod_beta)
qed

lemma all_inspected:
  "\<forall>a \<in> set args. \<not> isl (f a) \<Longrightarrow> map f args = map Inr (map (projr \<circ> f) args)"
  by (induction args) auto

lemma assemble_prints_no_document: "Document y \<notin> set (snd (assemble X c i))"
  by (auto simp: assemble_eq getServiceMounts_def binds_loop_eq)

lemma getWorkingDir_no_document: "Document y \<notin> set (snd (getWorkingDir X opts))"
  by (auto simp: getWorkingDir_def split: sum.splits)

lemma assemble_prints:
  "snd (assemble X c i) =
     map UnableToProcessBind
       (filter (\<lambda>b. length (strings_Split b (CHR '':'')) < 2) (Binds (HostConfig c)))"
  by (simp add: assemble_eq getServiceMounts_def binds_loop_eq)

lemma printed_eq:
  "concat (map (\<lambda>(k, c). snd (assemble X c k)) (enumerate i cs)) =
     concat (map (\<lambda>c. map UnableToProcessBind
                          (filter (\<lambda>b. length (strings_Split b (CHR '':'')) < 2)
                             (Binds (HostConfig c)))) cs)"
  by (induction cs arbitrary: i) (simp_all add: assemble_prints)

text \<open>
  Claim C5. If the inspect call fails for one of the requested identifiers, the run stops
  at the first identifier that fails and returns the very error of that call. What it has
  written by then is the banner, a working-directory warning if there was one, the bind
  warnings of the containers inspected before, and last the diagnostic that names the
  error: nothing of the identifiers after the failing one, whatever they are, and no
  document at all.
\<close>

theorem inspect_failure_aborts:
  assumes "a \<in> set args" and "isl (ContainerInspect X a)"
  shows "\<exists>pre arg post err cs.
           args = pre @ arg # post
         \<and> (\<forall>p \<in> set pre. \<not> isl (ContainerInspect X p))
         \<and> map (ContainerInspect X) pre = map Inr cs
         \<and> ContainerInspect X arg = Inl err
         \<and> runGenerate X opts args =
             (Some err,
              [ExperimentalBanner] @ snd (getWorkingDir X opts)
              @ concat (map (\<lambda>c. map UnableToProcessBind
                                   (filter (\<lambda>b. length (strings_Split b (CHR '':'')) < 2)
                                      (Binds (HostConfig c)))) cs)
              @ [FailedToInspect err])
         \<and> (\<forall>rest. runGenerate X opts (pre @ arg # rest) = runGenerate X opts args)
         \<and> fst (runGenerate X opts args) = Some err
         \<and> last (snd (runGenerate X opts args)) = FailedToInspect err
         \<and> (\<forall>yaml. Document yaml \<notin> set (snd (runGenerate X opts args)))"
proof -
  from assms have "\<exists>x \<in> set args. isl (ContainerInspect X x)" by blast
  then obtain pre arg post where split: "args = pre @ arg # post"
    and failed: "isl (ContainerInspect X arg)"
    and before: "\<forall>p \<in> set pre. \<not> isl (ContainerInspect X p)"
    using split_list_first_prop [where P = "\<lambda>x. isl (ContainerInspect X x)" and xs = args]
    by blast
  from failed obtain err where err: "ContainerInspect X arg = Inl err"
    by (cases "ContainerInspect X arg") auto
  define cs where "cs = map (projr \<circ> ContainerInspect X) pre"
  have pre: "map (ContainerInspect X) pre = map Inr cs"
    unfolding cs_def using before by (rule all_inspected)
  define out where "out = [ExperimentalBanner] @ snd (getWorkingDir X opts)
      @ concat (map (\<lambda>c. map UnableToProcessBind
                           (filter (\<lambda>b. length (strings_Split b (CHR '':'')) < 2)
                              (Binds (HostConfig c)))) cs)
      @ [FailedToInspect err]"
  have run: "runGenerate X opts (pre @ arg # rest) = (Some err, out)" for rest
    using services_loop_fail [OF pre err, of 0 rest Map.empty
        "[ExperimentalBanner] @ snd (getWorkingDir X opts)"]
    by (simp add: runGenerate_def case_prod_beta printed_eq out_def)
  have here: "runGenerate X opts args = (Some err, out)"
    unfolding split by (rule run)
  have nodoc: "\<forall>yaml. Document yaml \<notin> set out"
    by (auto simp: out_def getWorkingDir_no_document)
  have last: "last out = FailedToInspect err" by (simp add: out_def)
  show ?thesis
    using split before pre err here run nodoc last
    unfolding out_def by (intro exI [of _ pre] exI [of _ arg] exI [of _ post] exI [of _ err] exI [of _ cs]) simp
qed

theorem inspect_failure_aborts_witness:
  "''nope'' \<in> set [''web'', ''nope'', ''web'']
   \<and> isl (ContainerInspect sample ''nope'')
   \<and> runGenerate sample no_opts [''web'', ''nope'', ''web''] =
       (Some (Error ''No such container: nope''),
        [ExperimentalBanner, UnableToProcessBind ''/host'',
         FailedToInspect (Error ''No such container: nope'')])
   \<and> runGenerate sample no_opts [''web'', ''nope''] =
       runGenerate sample no_opts [''web'', ''nope'', ''web'']"
proof -
  have mem: "''nope'' \<in> set [''web'', ''nope'', ''web'']" by simp
  have bad: "isl (ContainerInspect sample ''nope'')" by (simp add: sample_def engine_def)
  have web: "ContainerInspect sample ''web'' = Inr web" by (simp add: sample_def engine_def)
  from inspect_failure_aborts [OF mem bad, of no_opts]
  obtain pre arg post err cs where
    split: "[''web'', ''nope'', ''web''] = pre @ arg # post"
    and before: "\<forall>p \<in> set pre. \<not> isl (ContainerInspect sample p)"
    and pre: "map (ContainerInspect sample) pre = map Inr cs"
    and err: "ContainerInspect sample arg = Inl err"
    and run: "runGenerate sample no_opts [''web'', ''nope'', ''web''] =
             (Some err,
              [ExperimentalBanner] @ snd (getWorkingDir sample no_opts)
              @ concat (map (\<lambda>c. map UnableToProcessBind
                                   (filter (\<lambda>b. length (strings_Split b (CHR '':'')) < 2)
                                      (Binds (HostConfig c)))) cs)
              @ [FailedToInspect err])"
    and rest: "\<forall>rest. runGenerate sample no_opts (pre @ arg # rest) =
                 runGenerate sample no_opts [''web'', ''nope'', ''web'']"
    by blast
  have "pre \<noteq> []" using split err web by (cases pre) auto
  then obtain pre' where p1: "pre = ''web'' # pre'" using split by (cases pre) auto
  have "pre' = []"
  proof (cases pre')
    case Nil then show ?thesis .
  next
    case (Cons x xs)
    then have "x = ''nope''" using split p1 by simp
    then show ?thesis using before p1 Cons bad by simp
  qed
  then have shape: "pre = [''web'']" "arg = ''nope''" "post = [''web'']"
    using split p1 by simp_all
  have cs: "cs = [web]" using pre shape web by (cases cs) auto
  have e: "err = Error ''No such container: nope''"
    using err shape by (simp add: sample_def engine_def)
  have wd: "getWorkingDir sample no_opts = (''/srv'', [])"
    by (simp add: getWorkingDir_def sample_def no_opts_def)
  have "runGenerate sample no_opts [''web'', ''nope'', ''web''] =
       (Some (Error ''No such container: nope''),
        [ExperimentalBanner, UnableToProcessBind ''/host'',
         FailedToInspect (Error ''No such container: nope'')])"
    unfolding run cs e wd by (simp add: web_def)
  moreover have "runGenerate sample no_opts [''web'', ''nope''] =
       runGenerate sample no_opts [''web'', ''nope'', ''web'']"
    using rest [rule_format, of "[]"] shape by simp
  ultimately show ?thesis using mem bad by simp
qed

text \<open>
  Claim C7. When every inspect call succeeds, the run returns no error, whatever the
  serializer does. If the serializer fails on the aggregated project, the run writes the
  diagnostic for that error, then still writes the document from the bytes the serializer
  returned.
\<close>

theorem serialization_failure_not_fatal:
  assumes "\<forall>a \<in> set args. \<not> isl (ContainerInspect X a)"
  shows "\<exists>services out.
           services_loop X 0 args (Map.empty, ExperimentalBanner # snd (getWorkingDir X opts))
             = Inr (services, out)
         \<and> fst (runGenerate X opts args) = None
         \<and> (\<forall>yaml e.
               MarshalYAML X \<lparr>Project_Name = getName opts,
                              Project_WorkingDir = fst (getWorkingDir X opts),
                              Project_Services = services\<rparr> = (yaml, Some e) \<longrightarrow>
               runGenerate X opts args = (None, out @ [OopsBad e, Document yaml]))"
proof -
  define cs where "cs = map (projr \<circ> ContainerInspect X) args"
  have ok: "map (ContainerInspect X) args = map Inr cs"
    unfolding cs_def using assms by (rule all_inspected)
  obtain services out where
    loop: "services_loop X 0 args (Map.empty, ExperimentalBanner # snd (getWorkingDir X opts))
             = Inr (services, out)"
    using services_loop_ok [OF ok] by blast
  have "fst (runGenerate X opts args) = None"
    using loop by (simp add: runGenerate_def case_prod_beta Let_def)
  moreover have "runGenerate X opts args = (None, out @ [OopsBad e, Document yaml])"
    if "MarshalYAML X \<lparr>Project_Name = getName opts,
                         Project_WorkingDir = fst (getWorkingDir X opts),
                         Project_Services = services\<rparr> = (yaml, Some e)" for yaml e
    using loop that by (simp add: runGenerate_def case_prod_beta Let_def)
  ultimately show ?thesis using loop by blast
qed

theorem serialization_failure_not_fatal_witness:
  "runGenerate (sample\<lparr>MarshalYAML := failing_MarshalYAML\<rparr>) no_opts [''web'', ''worker''] =
     (None, [ExperimentalBanner, UnableToProcessBind ''/host'',
             OopsBad (Error ''cannot marshal''), Document []])"
proof -
  let ?X = "sample\<lparr>MarshalYAML := failing_MarshalYAML\<rparr>"
  have ok: "\<forall>a \<in> set [''web'', ''worker'']. \<not> isl (ContainerInspect ?X a)"
    by (simp add: sample_def engine_def)
  from serialization_failure_not_fatal [OF ok, of no_opts]
  obtain services out where
    loop: "services_loop ?X 0 [''web'', ''worker'']
             (Map.empty, ExperimentalBanner # snd (getWorkingDir ?X no_opts)) = Inr (services, out)"
    and fail: "\<And>yaml e.
       MarshalYAML ?X \<lparr>Project_Name = getName no_opts,
                        Project_WorkingDir = fst (getWorkingDir ?X no_opts),
                        Project_Services = services\<rparr> = (yaml, Some e) \<Longrightarrow>
       runGenerate ?X no_opts [''web'', ''worker''] = (None, out @ [OopsBad e, Document yaml])"
    by blast
  have run: "runGenerate ?X no_opts [''web'', ''worker''] =
      (None, out @ [OopsBad (Error ''cannot marshal''), Document []])"
    by (rule fail) (simp add: sample_def failing_MarshalYAML_def)
  have web: "ContainerInspect sample ''web'' = Inr web"
    and worker: "ContainerInspect sample ''worker'' = Inr worker"
    by (simp_all add: sample_def engine_def)
  have wd: "getWorkingDir ?X no_opts = (''/srv'', [])"
    by (simp add: getWorkingDir_def sample_def no_opts_def)
  have pr: "snd (assemble ?X web 0) = [UnableToProcessBind ''/host'']"
    "snd (assemble ?X worker (Suc 0)) = []"
    by (simp_all add: assemble_eq getServiceMounts_def web_def worker_def)
  have "out = [ExperimentalBanner, UnableToProcessBind ''/host'']"
    using loop pr by (simp add: wd web worker case_prod_beta)
  then show ?thesis using run by simp
qed

lemma map_of_rev_last:
  assumes "j < length xs"
    and "\<forall>k. j < k \<and> k < length xs \<longrightarrow> fst (xs ! k) \<noteq> fst (xs ! j)"
  shows "map_of (rev xs) (fst (xs ! j)) = Some (snd (xs ! j))"
proof -
  have xs: "xs = take j xs @ xs ! j # drop (Suc j) xs"
    using assms(1) by (rule id_take_nth_drop)
  have "fst (xs ! j) \<notin> fst ` set (drop (Suc j) xs)"
  proof
    assume "fst (xs ! j) \<in> fst ` set (drop (Suc j) xs)"
    then obtain i where "i < length (drop (Suc j) xs)"
      "fst (drop (Suc j) xs ! i) = fst (xs ! j)"
      by (auto simp: in_set_conv_nth)
    then have "Suc j + i < length xs" "fst (xs ! (Suc j + i)) = fst (xs ! j)"
      by auto
    with assms(2) show False by auto
  qed
  then have later: "map_of (rev (drop (Suc j) xs)) (fst (xs ! j)) = None"
    by (simp add: map_of_eq_None_iff)
  have "map_of (rev xs) =
      map_of (xs ! j # rev (take j xs)) ++ map_of (rev (drop (Suc j) xs))"
    by (subst xs) simp
  then show ?thesis using later by (simp add: map_add_def)
qed

text \<open>
  Claim C6, as amended. The keys of the service mapping are the names derived for the
  containers, one entry per distinct name. The entry of a name is the service of the last
  container that derives it: a container whose name no later container derives is found
  under its name. A synthesized name that equals a name inserted earlier, engine-supplied
  or not, therefore replaces the earlier service.
\<close>

theorem service_names_last_write_wins:
  assumes "map (ContainerInspect X) args = map Inr cs"
  shows "\<exists>services out.
           services_loop X 0 args (Map.empty, out0) = Inr (services, out)
         \<and> dom services = {getServiceName (cs ! j) (int j) | j. j < length cs}
         \<and> (\<forall>j. j < length cs
                \<and> (\<forall>k. j < k \<and> k < length cs \<longrightarrow>
                       getServiceName (cs ! k) (int k) \<noteq> getServiceName (cs ! j) (int j))
              \<longrightarrow> services (getServiceName (cs ! j) (int j)) = Some (fst (assemble X (cs ! j) j)))"
proof -
  define xs where
    "xs = map (\<lambda>(k, c). (getServiceName c (int k), fst (assemble X c k))) (enumerate 0 cs)"
  have len: "length xs = length cs" by (simp add: xs_def)
  have nth: "xs ! j = (getServiceName (cs ! j) (int j), fst (assemble X (cs ! j) j))"
    if "j < length cs" for j
    using that by (simp add: xs_def nth_enumerate_eq)
  have loop: "services_loop X 0 args (Map.empty, out0) =
      Inr (map_of (rev xs), out0 @ concat (map (\<lambda>(k, c). snd (assemble X c k)) (enumerate 0 cs)))"
    using services_loop_ok [OF assms, of 0 Map.empty out0] by (simp add: xs_def)
  have "dom (map_of (rev xs)) = fst ` set xs"
    by (simp add: dom_map_of_conv_image_fst)
  also have "\<dots> = {getServiceName (cs ! j) (int j) | j. j < length cs}"
  proof -
    have "set xs = {xs ! j | j. j < length xs}" by (rule set_conv_nth)
    then show ?thesis using nth len by (auto simp: image_iff) (metis fst_conv)+
  qed
  finally have dom: "dom (map_of (rev xs)) = {getServiceName (cs ! j) (int j) | j. j < length cs}" .
  have last: "map_of (rev xs) (getServiceName (cs ! j) (int j)) = Some (fst (assemble X (cs ! j) j))"
    if j: "j < length cs"
      and later: "\<forall>k. j < k \<and> k < length cs \<longrightarrow>
                   getServiceName (cs ! k) (int k) \<noteq> getServiceName (cs ! j) (int j)" for j
  proof -
    have "\<forall>k. j < k \<and> k < length xs \<longrightarrow> fst (xs ! k) \<noteq> fst (xs ! j)"
      using later j by (simp add: len nth)
    from map_of_rev_last [OF _ this] j show ?thesis by (simp add: len nth)
  qed
  show ?thesis using loop dom last by blast
qed

text \<open>
  Claim C6 as stated fails: the engine names the first container \<^verbatim>\<open>/service-1\<close>,
  the second container has no name and sits at index 1. Both derive the name
  \<^verbatim>\<open>service-1\<close>, and the mapping keeps the second service only.
\<close>

theorem synthesized_name_collision:
  "Name impostor = ''/service-1'' \<and> Name worker = []
   \<and> getServiceName impostor 0 = ''service-1'' \<and> getServiceName worker 1 = ''service-1''
   \<and> Service_Image (fst (assemble sample impostor 0)) = ''nginx''
   \<and> Service_Image (fst (assemble sample worker 1)) = ''busybox''
   \<and> services_loop sample 0 [''impostor'', ''worker''] (Map.empty, []) =
       Inr ([''service-1'' \<mapsto> fst (assemble sample worker 1)], [UnableToProcessBind ''/host''])"
proof -
  have n0: "getServiceName impostor 0 = ''service-1''"
    by (simp add: getServiceName_def impostor_def strings_HasPrefix_def)
  have n1: "getServiceName worker 1 = ''service-1''"
    by (simp add: getServiceName_def worker_def Sprintf_d_def decimal.simps)
  have i0: "ContainerInspect sample ''impostor'' = Inr impostor"
    and i1: "ContainerInspect sample ''worker'' = Inr worker"
    by (simp_all add: sample_def engine_def)
  have p0: "snd (assemble sample impostor 0) = [UnableToProcessBind ''/host'']"
    and p1: "snd (assemble sample worker (Suc 0)) = []"
    by (simp_all add: assemble_eq getServiceMounts_def impostor_def web_def worker_def)
  have loop: "services_loop sample 0 [''impostor'', ''worker''] (Map.empty, []) =
       Inr ([''service-1'' \<mapsto> fst (assemble sample worker 1)], [UnableToProcessBind ''/host''])"
    using n0 n1 by (simp add: i0 i1 p0 p1 case_prod_beta assemble_name)
  show ?thesis using n0 n1 loop
    by (simp add: impostor_def worker_def web_def assemble_eq getServiceImage_def)
qed

theorem service_names_last_write_wins_witness:
  "map (ContainerInspect sample) [''web'', ''worker''] = map Inr [web, worker]
   \<and> (case services_loop sample 0 [''web'', ''worker''] (Map.empty, []) of
         Inl failed \<Rightarrow> False
       | Inr (services, out) \<Rightarrow>
           dom services = {''web'', ''service-1''}
         \<and> services ''web'' = Some (fst (assemble sample web 0))
         \<and> services ''service-1'' = Some (fst (assemble sample worker 1)))"
proof -
  have ok: "map (ContainerInspect sample) [''web'', ''worker''] = map Inr [web, worker]"
    by (simp add: sample_def engine_def)
  have n0: "getServiceName web 0 = ''web''"
    by (simp add: getServiceName_def web_def strings_HasPrefix_def)
  have n1: "getServiceName worker 1 = ''service-1''"
    by (simp add: getServiceName_def worker_def Sprintf_d_def decimal.simps)
  from service_names_last_write_wins [OF ok, of "[]"]
  obtain services out where
    loop: "services_loop sample 0 [''web'', ''worker''] (Map.empty, []) = Inr (services, out)"
    and dom: "dom services = {getServiceName ([web, worker] ! j) (int j) | j. j < length [web, worker]}"
    and last: "\<And>j. j < length [web, worker] \<Longrightarrow>
        (\<forall>k. j < k \<and> k < length [web, worker] \<longrightarrow>
           getServiceName ([web, worker] ! k) (int k) \<noteq> getServiceName ([web, worker] ! j) (int j)) \<Longrightarrow>
        services (getServiceName ([web, worker] ! j) (int j)) = Some (fst (assemble sample ([web, worker] ! j) j))"
    by blast
  have later: "\<forall>k. 0 < k \<and> k < length [web, worker] \<longrightarrow>
      getServiceName ([web, worker] ! k) (int k) \<noteq> getServiceName ([web, worker] ! 0) (int 0)"
  proof (intro allI impI)
    fix k :: nat
    assume "0 < k \<and> k < length [web, worker]"
    then have "k = 1" by auto
    then show "getServiceName ([web, worker] ! k) (int k) \<noteq> getServiceName ([web, worker] ! 0) (int 0)"
      using n0 n1 by simp
  qed
  have "services ''web'' = Some (fst (assemble sample web 0))"
    using last [of 0, OF _ later] n0 by simp
  moreover have "\<forall>k. 1 < k \<and> k < length [web, worker] \<longrightarrow>
      getServiceName ([web, worker] ! k) (int k) \<noteq> getServiceName ([web, worker] ! 1) (int 1)"
    by auto
  then have "services ''service-1'' = Some (fst (assemble sample worker 1))"
    using last [of 1] n1 by simp
  moreover have "{getServiceName ([web, worker] ! j) (int j) | j. j < length [web, worker]} =
      {getServiceName web 0, getServiceName worker 1}" (is "?L = ?R")
  proof
    show "?L \<subseteq> ?R" by (auto simp: less_Suc_eq)
    have "getServiceName ([web, worker] ! 0) (int 0) \<in> ?L"
      and "getServiceName ([web, worker] ! 1) (int 1) \<in> ?L"
      by (blast, simp only: mem_Collect_eq, rule exI [of _ 1], simp)
    then show "?R \<subseteq> ?L" by simp
  qed
  then have "dom services = {''web'', ''service-1''}"
    unfolding dom using n0 n1 by simp
  ultimately show ?thesis using ok loop by simp
qed

subsection \<open>The name mapper\<close>

text \<open>
  Claim C2, as amended. An absent (empty) display name gives the synthetic name
  \<^verbatim>\<open>service-\<close> followed by the index in decimal. A name that starts with the
  separator loses exactly that one character; any other name is kept. The mapper is a
  total function. The synthetic name is chosen by the emptiness of the display name, not
  of the stripped name: the result is empty exactly for the display name \<^verbatim>\<open>/\<close>.
\<close>

theorem name_mapper:
  "(Name c = [] \<longrightarrow> getServiceName c seed = ''service-'' @ Sprintf_d seed)
   \<and> (\<forall>rest. Name c = CHR ''/'' # rest \<longrightarrow> getServiceName c seed = rest)
   \<and> (Name c \<noteq> [] \<and> hd (Name c) \<noteq> CHR ''/'' \<longrightarrow> getServiceName c seed = Name c)
   \<and> (0 \<le> seed \<longrightarrow> Sprintf_d seed = decimal (nat seed))
   \<and> (getServiceName c seed = [] \<longleftrightarrow> Name c = ''/'')"
proof -
  have "getServiceName c seed = [] \<longleftrightarrow> Name c = ''/''"
    by (cases "Name c") (auto simp: getServiceName_def strings_HasPrefix_def)
  moreover have "Name c \<noteq> [] \<and> hd (Name c) \<noteq> CHR ''/'' \<longrightarrow> getServiceName c seed = Name c"
    by (cases "Name c") (auto simp: getServiceName_def strings_HasPrefix_def)
  ultimately show ?thesis
    by (auto simp: getServiceName_def strings_HasPrefix_def Sprintf_d_def)
qed

theorem name_mapper_witness:
  "Name worker = [] \<and> getServiceName worker 1 = ''service-1''
   \<and> Name web = CHR ''/'' # ''web'' \<and> getServiceName web 0 = ''web''
   \<and> getServiceName (web\<lparr>Name := ''//web''\<rparr>) 0 = ''/web''
   \<and> getServiceName (web\<lparr>Name := ''db''\<rparr>) 0 = ''db''
   \<and> Sprintf_d 12 = ''12''"
proof -
  have w: "Name worker = []" by (simp add: worker_def)
  have n: "Name web = CHR ''/'' # ''web''" by (simp add: web_def)
  have d: "Name (web\<lparr>Name := ''//web''\<rparr>) = CHR ''/'' # ''/web''" by simp
  have p: "Name (web\<lparr>Name := ''db''\<rparr>) \<noteq> [] \<and> hd (Name (web\<lparr>Name := ''db''\<rparr>)) \<noteq> CHR ''/''"
    by simp
  have s: "Sprintf_d 1 = ''1''" "Sprintf_d 12 = ''12''"
    using name_mapper [of worker 1] name_mapper [of worker 12] by (simp_all add: decimal.simps)
  have "getServiceName worker 1 = ''service-1''"
    using name_mapper [of worker 1] w s by simp
  moreover have "getServiceName web 0 = ''web''"
    using name_mapper [of web 0] n by blast
  moreover have "getServiceName (web\<lparr>Name := ''//web''\<rparr>) 0 = ''/web''"
    using name_mapper [of "web\<lparr>Name := ''//web''\<rparr>" 0] d by blast
  moreover have "getServiceName (web\<lparr>Name := ''db''\<rparr>) 0 = ''db''"
    using name_mapper [of "web\<lparr>Name := ''db''\<rparr>" 0] p by simp
  ultimately show ?thesis using w n s by simp
qed

text \<open>
  Claim C2 as stated fails at the display name \<^verbatim>\<open>/\<close>: the stripped name is empty,
  and the mapper returns it instead of \<^verbatim>\<open>service-0\<close>.
\<close>

theorem separator_only_name:
  "Name slash = ''/'' \<and> drop 1 (Name slash) = []
   \<and> getServiceName slash 0 = []
   \<and> ''service-'' @ Sprintf_d 0 = ''service-0''
   \<and> getServiceName slash 0 \<noteq> ''service-'' @ Sprintf_d 0"
  by (simp add: slash_def getServiceName_def strings_HasPrefix_def Sprintf_d_def decimal.simps)

subsection \<open>Iteration order\<close>

text \<open>Two visits of the same table are two lists with the same multiset of entries.\<close>

lemma mset_concat_map_cong:
  assumes "mset xs = mset ys"
  shows "mset (concat (map f xs)) = mset (concat (map f ys))"
proof -
  have "mset (concat (map f zs)) = sum_mset (image_mset (\<lambda>z. mset (f z)) (mset zs))" for zs
    by (induction zs) auto
  then show ?thesis using assms by simp
qed

lemma getServiceBindingsPorts_mset:
  assumes "mset (PortBindings (HostConfig c')) = mset (PortBindings (HostConfig c))"
    and "mset (ExposedPorts (Config c')) = mset (ExposedPorts (Config c))"
  shows "mset (fst (getServiceBindingsPorts X c')) = mset (fst (getServiceBindingsPorts X c))"
    and "mset (snd (getServiceBindingsPorts X c')) = mset (snd (getServiceBindingsPorts X c))"
proof -
  show "mset (fst (getServiceBindingsPorts X c')) = mset (fst (getServiceBindingsPorts X c))"
    by (simp add: getServiceBindingsPorts_eq mset_concat_map_cong [OF assms(1)])
  have "set (PortBindings (HostConfig c')) = set (PortBindings (HostConfig c))"
    using assms(1) by (rule mset_eq_setD)
  then have marked:
    "set (map (nat_Port X \<circ> fst) (filter (\<lambda>e. snd e \<noteq> []) (PortBindings (HostConfig c')))) =
     set (map (nat_Port X \<circ> fst) (filter (\<lambda>e. snd e \<noteq> []) (PortBindings (HostConfig c))))"
    by simp
  have "mset (map (nat_Port X) (ExposedPorts (Config c'))) =
        mset (map (nat_Port X) (ExposedPorts (Config c)))"
    using assms(2) by (metis mset_map)
  then show "mset (snd (getServiceBindingsPorts X c')) = mset (snd (getServiceBindingsPorts X c))"
    unfolding getServiceBindingsPorts_eq snd_conv marked mset_filter by simp
qed

lemma assemble_inspect_irrelevant:
  "assemble (X\<lparr>ContainerInspect := f\<rparr>) c i = assemble X c i"
  by (simp add: assemble_eq getServiceBindingsPorts_eq)

lemma revisited_fields:
  assumes "revisited c c'"
  shows "Name c' = Name c" and "Binds (HostConfig c') = Binds (HostConfig c)"
    and "Mounts (HostConfig c') = Mounts (HostConfig c)"
    and "Image (Config c') = Image (Config c)" and "Env (Config c') = Env (Config c)"
    and "Entrypoint (Config c') = Entrypoint (Config c)" and "Cmd (Config c') = Cmd (Config c)"
proof -
  from assms have eq: "c'\<lparr>HostConfig := (HostConfig c')\<lparr>PortBindings := PortBindings (HostConfig c)\<rparr>,
             Config := (Config c')\<lparr>ExposedPorts := ExposedPorts (Config c)\<rparr>\<rparr> = c"
    by (simp add: revisited_def)
  have hc: "(HostConfig c')\<lparr>PortBindings := PortBindings (HostConfig c)\<rparr> = HostConfig c"
    using arg_cong [OF eq, of HostConfig] by simp
  have cc: "(Config c')\<lparr>ExposedPorts := ExposedPorts (Config c)\<rparr> = Config c"
    using arg_cong [OF eq, of Config] by simp
  show "Name c' = Name c" using arg_cong [OF eq, of Name] by simp
  show "Binds (HostConfig c') = Binds (HostConfig c)" using arg_cong [OF hc, of Binds] by simp
  show "Mounts (HostConfig c') = Mounts (HostConfig c)" using arg_cong [OF hc, of Mounts] by simp
  show "Image (Config c') = Image (Config c)" using arg_cong [OF cc, of Image] by simp
  show "Env (Config c') = Env (Config c)" using arg_cong [OF cc, of Env] by simp
  show "Entrypoint (Config c') = Entrypoint (Config c)" using arg_cong [OF cc, of Entrypoint] by simp
  show "Cmd (Config c') = Cmd (Config c)" using arg_cong [OF cc, of Cmd] by simp
qed

lemma assemble_revisited:
  assumes "revisited c c'"
  shows "same_up_to_order (fst (assemble X c i)) (fst (assemble X c' i))"
    and "snd (assemble X c' i) = snd (assemble X c i)"
    and "Service_Name (fst (assemble X c' i)) = Service_Name (fst (assemble X c i))"
proof -
  note f = revisited_fields [OF assms]
  have tbl: "mset (PortBindings (HostConfig c')) = mset (PortBindings (HostConfig c))"
    and es: "mset (ExposedPorts (Config c')) = mset (ExposedPorts (Config c))"
    using assms by (simp_all add: revisited_def)
  note perm = getServiceBindingsPorts_mset [OF tbl es, of X]
  have mounts: "getServiceMounts c' = getServiceMounts c"
    by (simp add: getServiceMounts_def f)
  have rest: "getServiceName c' (int i) = getServiceName c (int i)"
    "getServiceImage c' = getServiceImage c" "getServiceEnv c' = getServiceEnv c"
    "getServiceEntrypoint c' = getServiceEntrypoint c" "getServiceCmd c' = getServiceCmd c"
    by (simp_all add: getServiceName_def getServiceImage_def getServiceEnv_def
        getServiceEntrypoint_def getServiceCmd_def f)
  show "same_up_to_order (fst (assemble X c i)) (fst (assemble X c' i))"
    unfolding same_up_to_order_def assemble_eq mounts rest using perm by simp
  show "snd (assemble X c' i) = snd (assemble X c i)"
    by (simp add: assemble_eq mounts)
  show "Service_Name (fst (assemble X c' i)) = Service_Name (fst (assemble X c i))"
    by (simp add: assemble_eq rest)
qed

lemma same_services_upd:
  assumes "same_services m m'" and "same_up_to_order s s'"
  shows "same_services (m(n \<mapsto> s)) (m'(n \<mapsto> s'))"
  unfolding same_services_def
proof
  fix name
  from assms(1) have old:
    "case m name of
       None \<Rightarrow> m' name = None
     | Some s \<Rightarrow> (case m' name of None \<Rightarrow> False | Some s' \<Rightarrow> same_up_to_order s s')"
    by (simp add: same_services_def)
  show "case (m(n \<mapsto> s)) name of
          None \<Rightarrow> (m'(n \<mapsto> s')) name = None
        | Some s \<Rightarrow> (case (m'(n \<mapsto> s')) name of None \<Rightarrow> False | Some s' \<Rightarrow> same_up_to_order s s')"
  proof (cases "name = n")
    case True
    then show ?thesis using assms(2) by simp
  next
    case False
    then show ?thesis using old by (cases "m name") simp_all
  qed
qed

lemma services_loop_revisited:
  assumes "\<forall>a \<in> set args. same_inspect (ContainerInspect X a) (f a)"
    and "same_services m m'"
  shows "case services_loop X i args (m, out) of
           Inl failed \<Rightarrow> services_loop (X\<lparr>ContainerInspect := f\<rparr>) i args (m', out) = Inl failed
         | Inr (s, out') \<Rightarrow>
             (\<exists>s'. services_loop (X\<lparr>ContainerInspect := f\<rparr>) i args (m', out) = Inr (s', out')
                  \<and> same_services s s')"
  using assms
proof (induction args arbitrary: i m m' out)
  case Nil
  then show ?case by simp
next
  case (Cons arg args)
  have here: "same_inspect (ContainerInspect X arg) (f arg)"
    and later: "\<forall>a \<in> set args. same_inspect (ContainerInspect X a) (f a)"
    using Cons.prems(1) by simp_all
  show ?case
  proof (cases "ContainerInspect X arg")
    case (Inl err)
    then have "f arg = Inl err" using here by (simp add: same_inspect_def)
    then show ?thesis using Inl by simp
  next
    case (Inr c)
    then obtain c' where f: "f arg = Inr c'" and rev: "revisited c c'"
      using here by (auto simp: same_inspect_def split: sum.splits)
    note a = assemble_revisited [OF rev, of X i]
    have upd: "same_services (m(Service_Name (fst (assemble X c i)) \<mapsto> fst (assemble X c i)))
        (m'(Service_Name (fst (assemble X c i)) \<mapsto> fst (assemble X c' i)))"
      using Cons.prems(2) a(1) by (rule same_services_upd)
    have L: "services_loop X i (arg # args) (m, out) =
        services_loop X (Suc i) args
          (m(Service_Name (fst (assemble X c i)) \<mapsto> fst (assemble X c i)),
           out @ snd (assemble X c i))"
      by (simp add: Inr case_prod_beta)
    have R: "services_loop (X\<lparr>ContainerInspect := f\<rparr>) i (arg # args) (m', out) =
        services_loop (X\<lparr>ContainerInspect := f\<rparr>) (Suc i) args
          (m'(Service_Name (fst (assemble X c i)) \<mapsto> fst (assemble X c' i)),
           out @ snd (assemble X c i))"
      by (simp add: f case_prod_beta assemble_inspect_irrelevant a(2,3))
    show ?thesis unfolding L R by (rule Cons.IH [OF later upd])
  qed
qed

lemma services_loop_cong:
  "\<forall>a \<in> set args. f a = ContainerInspect X a \<Longrightarrow>
   services_loop (X\<lparr>ContainerInspect := f\<rparr>) i args (m, out) = services_loop X i args (m, out)"
  by (induction args arbitrary: i m out)
     (simp_all add: assemble_inspect_irrelevant case_prod_beta split: sum.splits)

lemma runGenerate_emitted:
  "runGenerate X opts args =
     (case services_loop X 0 args (Map.empty, [ExperimentalBanner] @ snd (getWorkingDir X opts)) of
        Inl (err, out) \<Rightarrow> (Some err, out)
      | Inr (services, out) \<Rightarrow>
          (None, out @ emitted (MarshalYAML X \<lparr>Project_Name = getName opts,
                                               Project_WorkingDir = fst (getWorkingDir X opts),
                                               Project_Services = services\<rparr>)))"
  by (simp add: runGenerate_def emitted_def case_prod_beta Let_def
      split: sum.splits option.splits)

lemma same_services_empty: "same_services Map.empty Map.empty"
  by (simp add: same_services_def)

text \<open>
  Claim C9, as amended. Let two runs get the same identifiers and, for each, the same
  outcome of the inspect call, except that a record's port-binding table and exposed-port
  set may be visited in another order. If an inspect call fails, the two runs return the
  same error and write the same output. Otherwise they write the same output up to the
  serialization, and hand the serializer projects with the same name and working
  directory whose service mappings have the same names and, under each name, services
  that have the same published ports and the same exposed ports up to order and are equal
  in every other field; what follows is what the serializer returns for each project.
  Both runs return the same error or none. When the tables are visited in the same order
  the two runs write the same. The published ports of a service stand in the order in
  which the table is visited, the exposed ports in that of the exposed set.
\<close>

theorem two_runs_agree_up_to_order:
  assumes "\<forall>a \<in> set args. same_inspect (ContainerInspect X a) (inspect' a)"
  shows "(case services_loop X 0 args
               (Map.empty, [ExperimentalBanner] @ snd (getWorkingDir X opts)) of
            Inl (err, out) \<Rightarrow>
              runGenerate X opts args = (Some err, out)
            \<and> runGenerate (X\<lparr>ContainerInspect := inspect'\<rparr>) opts args = (Some err, out)
          | Inr (services, out) \<Rightarrow>
              (\<exists>services'.
                 same_services services services'
               \<and> runGenerate X opts args =
                   (None, out @ emitted (MarshalYAML X
                      \<lparr>Project_Name = getName opts,
                       Project_WorkingDir = fst (getWorkingDir X opts),
                       Project_Services = services\<rparr>))
               \<and> runGenerate (X\<lparr>ContainerInspect := inspect'\<rparr>) opts args =
                   (None, out @ emitted (MarshalYAML X
                      \<lparr>Project_Name = getName opts,
                       Project_WorkingDir = fst (getWorkingDir X opts),
                       Project_Services = services'\<rparr>))))
       \<and> fst (runGenerate (X\<lparr>ContainerInspect := inspect'\<rparr>) opts args)
           = fst (runGenerate X opts args)
       \<and> ((\<forall>a \<in> set args. inspect' a = ContainerInspect X a) \<longrightarrow>
            runGenerate (X\<lparr>ContainerInspect := inspect'\<rparr>) opts args = runGenerate X opts args)
       \<and> (\<forall>c i.
             Service_Ports (fst (assemble X c i)) =
               concat (map (\<lambda>(port, bindings).
                              map (\<lambda>binding. \<lparr>Port_HostIP = HostIP binding,
                                                Port_Published = HostPort binding,
                                                Port_Target = word_of_int (nat_Int X port)\<rparr>)
                                  bindings)
                           (PortBindings (HostConfig c)))
           \<and> Service_Expose (fst (assemble X c i)) =
               filter (\<lambda>p. p \<notin> set (map (nat_Port X \<circ> fst)
                                        (filter (\<lambda>e. snd e \<noteq> []) (PortBindings (HostConfig c)))))
                 (map (nat_Port X) (ExposedPorts (Config c))))"
proof -
  let ?X' = "X\<lparr>ContainerInspect := inspect'\<rparr>"
  let ?out0 = "[ExperimentalBanner] @ snd (getWorkingDir X opts)"
  have wd: "getWorkingDir ?X' opts = getWorkingDir X opts"
    by (simp add: getWorkingDir_def)
  note rel = services_loop_revisited [OF assms same_services_empty, of 0 ?out0]
  have run: "runGenerate X opts args =
     (case services_loop X 0 args (Map.empty, ?out0) of
        Inl (err, out) \<Rightarrow> (Some err, out)
      | Inr (services, out) \<Rightarrow>
          (None, out @ emitted (MarshalYAML X \<lparr>Project_Name = getName opts,
                                               Project_WorkingDir = fst (getWorkingDir X opts),
                                               Project_Services = services\<rparr>)))"
    by (rule runGenerate_emitted)
  have run': "runGenerate ?X' opts args =
     (case services_loop ?X' 0 args (Map.empty, ?out0) of
        Inl (err, out) \<Rightarrow> (Some err, out)
      | Inr (services, out) \<Rightarrow>
          (None, out @ emitted (MarshalYAML X \<lparr>Project_Name = getName opts,
                                               Project_WorkingDir = fst (getWorkingDir X opts),
                                               Project_Services = services\<rparr>)))"
    unfolding runGenerate_emitted [of ?X' opts args] wd
    by (simp split: sum.splits)
  have first: "case services_loop X 0 args (Map.empty, ?out0) of
            Inl (err, out) \<Rightarrow>
              runGenerate X opts args = (Some err, out)
            \<and> runGenerate ?X' opts args = (Some err, out)
          | Inr (services, out) \<Rightarrow>
              (\<exists>services'.
                 same_services services services'
               \<and> runGenerate X opts args =
                   (None, out @ emitted (MarshalYAML X
                      \<lparr>Project_Name = getName opts,
                       Project_WorkingDir = fst (getWorkingDir X opts),
                       Project_Services = services\<rparr>))
               \<and> runGenerate ?X' opts args =
                   (None, out @ emitted (MarshalYAML X
                      \<lparr>Project_Name = getName opts,
                       Project_WorkingDir = fst (getWorkingDir X opts),
                       Project_Services = services'\<rparr>)))"
  proof (cases "services_loop X 0 args (Map.empty, ?out0)")
    case (Inl failed)
    obtain err out where failed: "failed = (err, out)" by (cases failed)
    have "services_loop ?X' 0 args (Map.empty, ?out0) = Inl (err, out)"
      using rel Inl failed by simp
    then show ?thesis using Inl failed run run' by simp
  next
    case (Inr finished)
    obtain services out where finished: "finished = (services, out)" by (cases finished)
    obtain services' where
      loop': "services_loop ?X' 0 args (Map.empty, ?out0) = Inr (services', out)"
      and same: "same_services services services'"
      using rel Inr finished by auto
    show ?thesis using Inr finished loop' same run run' by auto
  qed
  have second: "fst (runGenerate ?X' opts args) = fst (runGenerate X opts args)"
    using first by (auto split: sum.splits)
  have third: "runGenerate ?X' opts args = runGenerate X opts args"
    if "\<forall>a \<in> set args. inspect' a = ContainerInspect X a"
    unfolding run run' services_loop_cong [OF that] ..
  have fourth: "Service_Ports (fst (assemble X c i)) =
               concat (map (\<lambda>(port, bindings).
                              map (\<lambda>binding. \<lparr>Port_HostIP = HostIP binding,
                                                Port_Published = HostPort binding,
                                                Port_Target = word_of_int (nat_Int X port)\<rparr>)
                                  bindings)
                           (PortBindings (HostConfig c)))
           \<and> Service_Expose (fst (assemble X c i)) =
               filter (\<lambda>p. p \<notin> set (map (nat_Port X \<circ> fst)
                                        (filter (\<lambda>e. snd e \<noteq> []) (PortBindings (HostConfig c)))))
                 (map (nat_Port X) (ExposedPorts (Config c)))" for c i
    by (simp add: assemble_eq getServiceBindingsPorts_eq)
  show ?thesis using first second third fourth by blast
qed

theorem two_runs_agree_up_to_order_witness:
  "same_inspect (ContainerInspect sample ''edge'') (engine' ''edge'')
   \<and> same_inspect (ContainerInspect sample ''nope'') (engine' ''nope'')
   \<and> runGenerate sample no_opts [''edge'', ''nope''] =
       (Some (Error ''No such container: nope''),
        [ExperimentalBanner, FailedToInspect (Error ''No such container: nope'')])
   \<and> runGenerate (sample\<lparr>ContainerInspect := engine'\<rparr>) no_opts [''edge'', ''nope''] =
       (Some (Error ''No such container: nope''),
        [ExperimentalBanner, FailedToInspect (Error ''No such container: nope'')])
   \<and> fst (runGenerate (sample\<lparr>ContainerInspect := engine'\<rparr>) no_opts [''edge''])
       = fst (runGenerate sample no_opts [''edge''])
   \<and> runGenerate (sample\<lparr>ContainerInspect := engine\<rparr>) no_opts [''edge'']
       = runGenerate sample no_opts [''edge'']
   \<and> Service_Expose (fst (assemble sample edge 0)) = [''9000'', ''9001'']
   \<and> Service_Expose (fst (assemble sample edge' 0)) = [''9001'', ''9000'']"
proof -
  have rev: "revisited edge edge'"
    by (simp add: revisited_def edge_def edge'_def)
  have e: "same_inspect (ContainerInspect sample ''edge'') (engine' ''edge'')"
    using rev by (simp add: same_inspect_def sample_def engine_def engine'_def)
  have n: "same_inspect (ContainerInspect sample ''nope'') (engine' ''nope'')"
    by (simp add: same_inspect_def sample_def engine_def engine'_def)
  have all2: "\<forall>a \<in> set [''edge'', ''nope'']. same_inspect (ContainerInspect sample a) (engine' a)"
    using e n by simp
  have all1: "\<forall>a \<in> set [''edge'']. same_inspect (ContainerInspect sample a) (engine' a)"
    using e by simp
  have refl: "\<forall>a \<in> set [''edge'']. same_inspect (ContainerInspect sample a) (engine a)"
    by (simp add: same_inspect_def sample_def engine_def revisited_def)
  have same: "\<forall>a \<in> set [''edge'']. engine a = ContainerInspect sample a"
    by (simp add: sample_def)
  have wd: "getWorkingDir sample no_opts = (''/srv'', [])"
    by (simp add: getWorkingDir_def sample_def no_opts_def)
  have i: "ContainerInspect sample ''edge'' = Inr edge"
    "ContainerInspect sample ''nope'' = Inl (Error ''No such container: nope'')"
    by (simp_all add: sample_def engine_def)
  have p: "snd (assemble sample edge 0) = []"
    by (simp add: assemble_eq getServiceMounts_def edge_def)
  have loop: "services_loop sample 0 [''edge'', ''nope'']
      (Map.empty, [ExperimentalBanner] @ snd (getWorkingDir sample no_opts)) =
      Inl (Error ''No such container: nope'',
           [ExperimentalBanner, FailedToInspect (Error ''No such container: nope'')])"
    by (simp add: wd i p case_prod_beta)
  from two_runs_agree_up_to_order [OF all2, of no_opts]
  have fail: "runGenerate sample no_opts [''edge'', ''nope''] =
       (Some (Error ''No such container: nope''),
        [ExperimentalBanner, FailedToInspect (Error ''No such container: nope'')])"
    "runGenerate (sample\<lparr>ContainerInspect := engine'\<rparr>) no_opts [''edge'', ''nope''] =
       (Some (Error ''No such container: nope''),
        [ExperimentalBanner, FailedToInspect (Error ''No such container: nope'')])"
    unfolding loop by simp_all
  from two_runs_agree_up_to_order [OF all1, of no_opts]
  have ok: "fst (runGenerate (sample\<lparr>ContainerInspect := engine'\<rparr>) no_opts [''edge''])
       = fst (runGenerate sample no_opts [''edge''])"
    by blast
  from two_runs_agree_up_to_order [OF refl, of no_opts] same
  have again: "runGenerate (sample\<lparr>ContainerInspect := engine\<rparr>) no_opts [''edge'']
       = runGenerate sample no_opts [''edge'']"
    by blast
  from two_runs_agree_up_to_order [OF all1, of no_opts]
  have form: "Service_Expose (fst (assemble sample c i)) =
      filter (\<lambda>p. p \<notin> set (map (nat_Port sample \<circ> fst)
                               (filter (\<lambda>e. snd e \<noteq> []) (PortBindings (HostConfig c)))))
        (map (nat_Port sample) (ExposedPorts (Config c)))" for c i
    by blast
  have order: "Service_Expose (fst (assemble sample edge 0)) = [''9000'', ''9001'']"
    "Service_Expose (fst (assemble sample edge' 0)) = [''9001'', ''9000'']"
    unfolding form by (simp_all add: edge_def edge'_def sample_def sample_Port_def)
  show ?thesis using e n fail ok again order by simp
qed

text \<open>
  Claim C9 as stated fails: the record \<open>edge\<close> has two bound ports and two exposed
  ports; \<open>edge'\<close> is the same record with both tables visited the other way round. The
  port mapper gives the lists in the other order, and with a serializer that writes the
  lists as they are the two runs print different documents.
\<close>

theorem output_order_not_stable:
  "mset (PortBindings (HostConfig edge')) = mset (PortBindings (HostConfig edge))
   \<and> mset (ExposedPorts (Config edge')) = mset (ExposedPorts (Config edge))
   \<and> edge'\<lparr>HostConfig := HostConfig edge, Config := Config edge\<rparr> = edge
   \<and> getServiceBindingsPorts sample edge =
       ([\<lparr>Port_HostIP = ''0.0.0.0'', Port_Published = ''8080'', Port_Target = 80\<rparr>,
         \<lparr>Port_HostIP = ''0.0.0.0'', Port_Published = ''8443'', Port_Target = 443\<rparr>],
        [''9000'', ''9001''])
   \<and> getServiceBindingsPorts sample edge' =
       ([\<lparr>Port_HostIP = ''0.0.0.0'', Port_Published = ''8443'', Port_Target = 443\<rparr>,
         \<lparr>Port_HostIP = ''0.0.0.0'', Port_Published = ''8080'', Port_Target = 80\<rparr>],
        [''9001'', ''9000''])
   \<and> runGenerate sample no_opts [''edge''] =
       (None, [ExperimentalBanner, Document ''8080844390009001''])
   \<and> runGenerate (sample\<lparr>ContainerInspect := engine'\<rparr>) no_opts [''edge''] =
       (None, [ExperimentalBanner, Document ''8443808090019000''])"
proof -
  have tbl: "mset (PortBindings (HostConfig edge')) = mset (PortBindings (HostConfig edge))"
    by (simp add: edge_def edge'_def)
  have es: "mset (ExposedPorts (Config edge')) = mset (ExposedPorts (Config edge))"
    by (simp add: edge_def edge'_def)
  have same: "edge'\<lparr>HostConfig := HostConfig edge, Config := Config edge\<rparr> = edge"
    by (simp add: edge_def edge'_def)
  have p: "getServiceBindingsPorts sample edge =
       ([\<lparr>Port_HostIP = ''0.0.0.0'', Port_Published = ''8080'', Port_Target = 80\<rparr>,
         \<lparr>Port_HostIP = ''0.0.0.0'', Port_Published = ''8443'', Port_Target = 443\<rparr>],
        [''9000'', ''9001''])"
    by (simp add: getServiceBindingsPorts_eq edge_def sample_def sample_Port_def sample_Int_def)
  have p': "getServiceBindingsPorts sample edge' =
       ([\<lparr>Port_HostIP = ''0.0.0.0'', Port_Published = ''8443'', Port_Target = 443\<rparr>,
         \<lparr>Port_HostIP = ''0.0.0.0'', Port_Published = ''8080'', Port_Target = 80\<rparr>],
        [''9001'', ''9000''])"
    by (simp add: getServiceBindingsPorts_eq edge'_def sample_def sample_Port_def sample_Int_def)
  have q': "getServiceBindingsPorts (sample\<lparr>ContainerInspect := engine'\<rparr>) edge' =
      getServiceBindingsPorts sample edge'"
    by (simp add: getServiceBindingsPorts_eq)
  have wd: "getWorkingDir sample no_opts = (''/srv'', [])"
    "getWorkingDir (sample\<lparr>ContainerInspect := engine'\<rparr>) no_opts = (''/srv'', [])"
    by (simp_all add: getWorkingDir_def sample_def no_opts_def)
  have n: "Name edge = ''/edge''" "Name edge' = ''/edge''"
    "getServiceMounts edge = ([], [])" "getServiceMounts edge' = ([], [])"
    by (simp_all add: edge_def edge'_def getServiceMounts_def)
  have i: "ContainerInspect sample ''edge'' = Inr edge" "engine' ''edge'' = Inr edge'"
    "MarshalYAML sample = ports_MarshalYAML"
    by (simp_all add: sample_def engine_def engine'_def)
  have r: "runGenerate sample no_opts [''edge''] =
       (None, [ExperimentalBanner, Document ''8080844390009001''])"
    by (simp add: runGenerate_def wd i assemble_eq p n getServiceName_def
        strings_HasPrefix_def ports_MarshalYAML_def Let_def)
  have r': "runGenerate (sample\<lparr>ContainerInspect := engine'\<rparr>) no_opts [''edge''] =
       (None, [ExperimentalBanner, Document ''8443808090019000''])"
    by (simp add: runGenerate_def wd i assemble_eq q' p' n getServiceName_def
        strings_HasPrefix_def ports_MarshalYAML_def Let_def)
  show ?thesis using tbl es same p p' r r' by simp
qed

subsection \<open>The environment mapper\<close>

lemma map_of_assign: "map_of (assign m k v) = (map_of m)(k \<mapsto> v)"
  by (induction m k v rule: assign.induct) (auto simp: fun_eq_iff)

lemma keys_assign:
  "map fst (assign m k v) = (if k \<in> set (map fst m) then map fst m else map fst m @ [k])"
  by (induction m k v rule: assign.induct) auto

lemma map_of_loop:
  "map_of (NewMappingWithEquals_loop vs m) = map_of m ++ map_of (rev (map splitEnv vs))"
proof (induction vs arbitrary: m)
  case Nil
  then show ?case by simp
next
  case (Cons env vs)
  obtain k v where kv: "splitEnv env = (k, v)" by (cases "splitEnv env")
  show ?case
    by (simp add: kv Cons.IH map_of_assign)
       (simp add: fun_eq_iff map_add_def split: option.splits)
qed

lemma remdups_drop_known:
  assumes "k \<in> set xs"
  shows "remdups (ys @ k # xs) = remdups (ys @ xs)"
proof -
  have "remdups (ys @ k # xs) = remdups (ys @ remdups (k # xs))"
    by (simp only: remdups_append2)
  also have "\<dots> = remdups (ys @ remdups xs)" using assms by simp
  also have "\<dots> = remdups (ys @ xs)" by (simp only: remdups_append2)
  finally show ?thesis .
qed

lemma keys_loop:
  "distinct (map fst m) \<Longrightarrow>
   map fst (NewMappingWithEquals_loop vs m) =
     rev (remdups (rev (map fst m @ map (\<lambda>e. fst (splitEnv e)) vs)))"
proof (induction vs arbitrary: m)
  case Nil
  then show ?case by (simp add: distinct_remdups_id)
next
  case (Cons env vs)
  obtain k v where kv: "splitEnv env = (k, v)" by (cases "splitEnv env")
  have d: "distinct (map fst (assign m k v))"
    using Cons.prems by (simp add: keys_assign)
  show ?case
  proof (cases "k \<in> set (map fst m)")
    case True
    then have "remdups (rev (map (\<lambda>e. fst (splitEnv e)) vs) @ k # rev (map fst m)) =
               remdups (rev (map (\<lambda>e. fst (splitEnv e)) vs) @ rev (map fst m))"
      by (intro remdups_drop_known) simp
    then show ?thesis using True kv Cons.IH [OF d] by (simp add: keys_assign)
  next
    case False
    then show ?thesis using kv Cons.IH [OF d] by (simp add: keys_assign)
  qed
qed

lemma assign_fresh: "k \<notin> set (map fst m) \<Longrightarrow> assign m k v = m @ [(k, v)]"
  by (induction m k v rule: assign.induct) auto

lemma loop_fresh:
  "distinct (map fst m @ map (\<lambda>e. fst (splitEnv e)) vs) \<Longrightarrow>
   NewMappingWithEquals_loop vs m = m @ map splitEnv vs"
proof (induction vs arbitrary: m)
  case Nil
  then show ?case by simp
next
  case (Cons env vs)
  obtain k v where kv: "splitEnv env = (k, v)" by (cases "splitEnv env")
  have fresh: "k \<notin> set (map fst m)" using Cons.prems kv by auto
  have "distinct (map fst (m @ [(k, v)]) @ map (\<lambda>e. fst (splitEnv e)) vs)"
    using Cons.prems kv by auto
  from Cons.IH [OF this] show ?case by (simp add: kv assign_fresh [OF fresh])
qed

lemma splitEnv_bare: "CHR ''='' \<notin> set env \<Longrightarrow> splitEnv env = (env, None)"
  by (simp add: splitEnv_def)

lemma splitEnv_assigned:
  "CHR ''='' \<notin> set key \<Longrightarrow> splitEnv (key @ CHR ''='' # val) = (key, Some val)"
  by (induction key) (auto simp: splitEnv_def)

text \<open>
  Claim C8, for the mapping as the specification describes it. A string without
  \<^verbatim>\<open>=\<close> is a key with no value; a string \<^verbatim>\<open>KEY=VALUE\<close> is split at its first
  \<^verbatim>\<open>=\<close>, so the value may be empty (which differs from no value) or contain
  \<^verbatim>\<open>=\<close>. Looking a key up gives the value of its last occurrence in the input. The
  keys of the result are distinct and stand in the order of their first occurrence; an
  input without repeated keys is mapped entry by entry.
\<close>

theorem environment_mapping:
  "(\<forall>env. CHR ''='' \<notin> set env \<longrightarrow> splitEnv env = (env, None))
   \<and> (\<forall>key val. CHR ''='' \<notin> set key \<longrightarrow> splitEnv (key @ CHR ''='' # val) = (key, Some val))
   \<and> map_of (getServiceEnv c) = map_of (rev (map splitEnv (Env (Config c))))
   \<and> map fst (getServiceEnv c) = rev (remdups (rev (map (\<lambda>e. fst (splitEnv e)) (Env (Config c)))))
   \<and> distinct (map fst (getServiceEnv c))
   \<and> (distinct (map (\<lambda>e. fst (splitEnv e)) (Env (Config c))) \<longrightarrow>
        getServiceEnv c = map splitEnv (Env (Config c)))"
proof -
  let ?vs = "Env (Config c)"
  have lookup: "map_of (getServiceEnv c) = map_of (rev (map splitEnv ?vs))"
    by (simp add: getServiceEnv_def NewMappingWithEquals_def map_of_loop)
  have keys: "map fst (getServiceEnv c) = rev (remdups (rev (map (\<lambda>e. fst (splitEnv e)) ?vs)))"
    using keys_loop [of "[]" ?vs] by (simp add: getServiceEnv_def NewMappingWithEquals_def)
  have dist: "distinct (map fst (getServiceEnv c))"
    unfolding keys by simp
  have same: "getServiceEnv c = map splitEnv ?vs" if d: "distinct (map (\<lambda>e. fst (splitEnv e)) ?vs)"
    using loop_fresh [of "[]" ?vs] d by (simp add: getServiceEnv_def NewMappingWithEquals_def)
  show ?thesis using lookup keys dist same by (simp add: splitEnv_bare splitEnv_assigned)
qed

theorem environment_mapping_witness:
  "CHR ''='' \<notin> set ''DEBUG'' \<and> splitEnv ''DEBUG'' = (''DEBUG'', None)
   \<and> splitEnv ''EMPTY='' = (''EMPTY'', Some [])
   \<and> splitEnv ''URL=http://x?a=b'' = (''URL'', Some ''http://x?a=b'')
   \<and> distinct (map (\<lambda>e. fst (splitEnv e)) (Env (Config web)))
   \<and> getServiceEnv web = [(''PATH'', Some ''/usr/bin''), (''DEBUG'', None)]
   \<and> map_of (getServiceEnv (web\<lparr>Config := (Config web)\<lparr>Env := [''A=1'', ''DEBUG'', ''A=2'']\<rparr>\<rparr>)) ''A''
       = Some (Some ''2'')
   \<and> getServiceEnv (web\<lparr>Config := (Config web)\<lparr>Env := [''A=1'', ''DEBUG'', ''A=2'']\<rparr>\<rparr>)
       = [(''A'', Some ''2''), (''DEBUG'', None)]"
proof -
  note inst = environment_mapping [of web]
  have bare: "CHR ''='' \<notin> set ''DEBUG''" by simp
  have "splitEnv ''DEBUG'' = (''DEBUG'', None)" using inst bare by blast
  moreover have "splitEnv (''EMPTY'' @ CHR ''='' # []) = (''EMPTY'', Some [])"
    using inst by (simp del: append.simps)
  moreover have "splitEnv (''URL'' @ CHR ''='' # ''http://x?a=b'') = (''URL'', Some ''http://x?a=b'')"
    using inst by (simp del: append.simps)
  moreover have d: "distinct (map (\<lambda>e. fst (splitEnv e)) (Env (Config web)))"
    by (simp add: web_def splitEnv_def)
  moreover have "getServiceEnv web = map splitEnv (Env (Config web))"
    using inst d by blast
  then have "getServiceEnv web = [(''PATH'', Some ''/usr/bin''), (''DEBUG'', None)]"
    by (simp add: web_def splitEnv_def)
  moreover have "map_of (getServiceEnv (web\<lparr>Config := (Config web)\<lparr>Env := [''A=1'', ''DEBUG'', ''A=2'']\<rparr>\<rparr>)) ''A''
       = Some (Some ''2'')"
    using environment_mapping [of "web\<lparr>Config := (Config web)\<lparr>Env := [''A=1'', ''DEBUG'', ''A=2'']\<rparr>\<rparr>"]
    by (simp add: splitEnv_def)
  moreover have "getServiceEnv (web\<lparr>Config := (Config web)\<lparr>Env := [''A=1'', ''DEBUG'', ''A=2'']\<rparr>\<rparr>)
       = [(''A'', Some ''2''), (''DEBUG'', None)]"
    by (simp add: getServiceEnv_def NewMappingWithEquals_def splitEnv_def)
  ultimately show ?thesis using bare by simp
qed

end
